theory Spec2Isabelle
  imports Main "HOL-Library.Sublist"
begin

section \<open>Data model of \<^verbatim>\<open>src/gateway/process.ts\<close>\<close>

text \<open>
  A JavaScript \<^verbatim>\<open>Error\<close>: its message and its optional \<^verbatim>\<open>cause\<close>. Values thrown by
  the sandbox runtime are of this type too.
\<close>

datatype error = Error (message: string) (cause: "error option")

text \<open>
  A \<^verbatim>\<open>Process\<close> handle of the sandbox SDK, with the three attributes the code reads.
  Its methods (\<^verbatim>\<open>kill\<close>, \<^verbatim>\<open>waitForPort\<close>, \<^verbatim>\<open>getLogs\<close>) belong to the sandbox runtime and are
  fields of the record \<open>sandbox\<close> below. The status is the SDK's string.
\<close>

record process =
  proc_id :: string
  command :: string
  status :: string

record logs =
  stdout :: string
  stderr :: string

text \<open>
  The fields of \<^verbatim>\<open>MoltbotEnv\<close> this file reads. Each is \<^verbatim>\<open>string | undefined\<close>.
\<close>

record env =
  GEMINI_API_KEY :: "string option"
  ANTHROPIC_API_KEY :: "string option"
  ANTHROPIC_BASE_URL :: "string option"
  OPENAI_API_KEY :: "string option"
  MOLTBOT_GATEWAY_TOKEN :: "string option"
  DEV_MODE :: "string option"

text \<open>JavaScript object literals, as the values \<^verbatim>\<open>JSON.stringify\<close> receives.\<close>

datatype json =
    JString string
  | JNumber nat
  | JBool bool
  | JArray "json list"
  | JObject "(string \<times> json) list"

text \<open>
  What the file imports and does not define: the two constants of \<^verbatim>\<open>../config\<close>, the
  environment assembler \<^verbatim>\<open>buildEnvVars\<close> of \<^verbatim>\<open>./env\<close>, and the runtime's
  \<^verbatim>\<open>JSON.stringify\<close>. They are parameters of the model.
\<close>

record externals =
  MOLTBOT_PORT :: nat
  STARTUP_TIMEOUT_MS :: nat
  buildEnvVars :: "env \<Rightarrow> (string \<times> string) list"
  JSON_stringify :: "json \<Rightarrow> string"

text \<open>
  The sandbox runtime and the two helpers that talk to it (\<^verbatim>\<open>ensureRcloneConfig\<close> of
  \<^verbatim>\<open>./r2\<close>, \<^verbatim>\<open>waitForProcess\<close> of \<^verbatim>\<open>./utils\<close>): each call reads and changes the state
  \<open>'w\<close> of the world outside and either throws or returns.
\<close>

record 'w sandbox =
  sb_ensureRcloneConfig :: "env \<Rightarrow> 'w \<Rightarrow> (error + bool) \<times> 'w"
  sb_listProcesses :: "'w \<Rightarrow> (error + process list) \<times> 'w"
  sb_startProcess :: "string \<Rightarrow> (string \<times> string) list option \<Rightarrow> 'w \<Rightarrow> (error + process) \<times> 'w"
  sb_waitForProcess :: "process \<Rightarrow> nat \<Rightarrow> 'w \<Rightarrow> (error + unit) \<times> 'w"
  sb_waitForPort :: "process \<Rightarrow> nat \<Rightarrow> string \<Rightarrow> nat \<Rightarrow> 'w \<Rightarrow> (error + unit) \<times> 'w"
  sb_getLogs :: "process \<Rightarrow> 'w \<Rightarrow> (error + logs) \<times> 'w"
  sb_kill :: "process \<Rightarrow> 'w \<Rightarrow> (error + unit) \<times> 'w"

text \<open>The calls the supervisor issues, with their arguments, in the order issued.\<close>

datatype event =
    EnsureRcloneConfig
  | ListProcesses
  | StartProcess string "(string \<times> string) list option"
  | WaitForProcess process nat
  | WaitForPort process nat string nat
  | GetLogs process
  | Kill process

section \<open>Effects: state passing with exceptions\<close>

text \<open>
  An \<^verbatim>\<open>async\<close> function is a state transformer on the trace of calls issued so far and
  the world; it ends with a thrown error (\<open>Inl\<close>) or a value (\<open>Inr\<close>). Console output
  is not part of the model.
\<close>

type_synonym 'w state = "event list \<times> 'w"
type_synonym ('w, 'a) prog = "'w state \<Rightarrow> (error + 'a) \<times> 'w state"

definition return_prog :: "'a \<Rightarrow> ('w, 'a) prog" where
  "return_prog x = (\<lambda>s. (Inr x, s))"

definition throw_prog :: "error \<Rightarrow> ('w, 'a) prog" where
  "throw_prog e = (\<lambda>s. (Inl e, s))"

definition bind_prog :: "('w, 'a) prog \<Rightarrow> ('a \<Rightarrow> ('w, 'b) prog) \<Rightarrow> ('w, 'b) prog" where
  "bind_prog m f = (\<lambda>s. case m s of (Inl e, s') \<Rightarrow> (Inl e, s') | (Inr x, s') \<Rightarrow> f x s')"

definition try_catch :: "('w, 'a) prog \<Rightarrow> (error \<Rightarrow> ('w, 'a) prog) \<Rightarrow> ('w, 'a) prog" where
  "try_catch m h = (\<lambda>s. case m s of (Inl e, s') \<Rightarrow> h e s' | (Inr x, s') \<Rightarrow> (Inr x, s'))"

definition call :: "event \<Rightarrow> ('w \<Rightarrow> (error + 'a) \<times> 'w) \<Rightarrow> ('w, 'a) prog" where
  "call ev op = (\<lambda>(tr, w). case op w of (r, w') \<Rightarrow> (r, (tr @ [ev], w')))"

text \<open>One invocation from an empty trace: what it returns or throws, and what it called.\<close>

definition result_of :: "('w, 'a) prog \<Rightarrow> 'w \<Rightarrow> error + 'a" where
  "result_of m w = fst (m ([], w))"

definition trace_of :: "('w, 'a) prog \<Rightarrow> 'w \<Rightarrow> event list" where
  "trace_of m w = fst (snd (m ([], w)))"

section \<open>JavaScript primitives\<close>

text \<open>\<^verbatim>\<open>haystack.includes(needle)\<close>.\<close>

fun includes_str :: "string \<Rightarrow> string \<Rightarrow> bool" where
  "includes_str [] needle = (needle = [])"
| "includes_str (c # cs) needle = (prefix needle (c # cs) \<or> includes_str cs needle)"

text \<open>Truthiness of a \<^verbatim>\<open>string | undefined\<close>: defined and not empty.\<close>

fun truthy :: "string option \<Rightarrow> bool" where
  "truthy None = False"
| "truthy (Some s) = (s \<noteq> [])"

text \<open>The string read from a field in a branch where it was tested truthy.\<close>

fun str_of :: "string option \<Rightarrow> string" where
  "str_of None = []"
| "str_of (Some s) = s"

text \<open>\<^verbatim>\<open>x || fallback\<close> on a \<^verbatim>\<open>string | undefined\<close>.\<close>

fun or_else :: "string option \<Rightarrow> string \<Rightarrow> string" where
  "or_else None d = d"
| "or_else (Some s) d = (if s = [] then d else s)"

text \<open>\<^verbatim>\<open>s.replace(/'/g, "'\\''")\<close>: every quote becomes quote, backslash, quote, quote.\<close>

definition escape_quotes :: "string \<Rightarrow> string" where
  "escape_quotes s =
     concat (map (\<lambda>c. if c = CHR 0x27 then [CHR 0x27, CHR 0x5C, CHR 0x27, CHR 0x27] else [c]) s)"

section \<open>Credential selection and the configuration document (lines 16 to 71)\<close>

definition gemini_provider :: "string \<Rightarrow> (string \<times> json) list" where
  "gemini_provider key =
     [(''google-gemini'', JObject
        [(''baseUrl'', JString ''https://generativelanguage.googleapis.com/v1beta/openai/''),
         (''api'', JString ''openai-completions''),
         (''apiKey'', JString key),
         (''models'', JArray
            [JObject [(''id'', JString ''gemini-2.0-flash''), (''name'', JString ''Gemini 2.0 Flash''),
                      (''contextWindow'', JNumber 1048576), (''maxTokens'', JNumber 8192)],
             JObject [(''id'', JString ''gemini-2.5-flash-preview-05-20''),
                      (''name'', JString ''Gemini 2.5 Flash''),
                      (''contextWindow'', JNumber 1048576), (''maxTokens'', JNumber 65536)]])])]"

definition anthropic_provider :: "string \<Rightarrow> string option \<Rightarrow> (string \<times> json) list" where
  "anthropic_provider key base =
     [(''anthropic'', JObject
        [(''api'', JString ''anthropic-messages''),
         (''apiKey'', JString key),
         (''baseUrl'', JString (or_else base ''https://api.anthropic.com'')),
         (''models'', JArray
            [JObject [(''id'', JString ''claude-sonnet-4-20250514''), (''name'', JString ''Claude Sonnet''),
                      (''contextWindow'', JNumber 200000), (''maxTokens'', JNumber 8192)]])])]"

definition openai_provider :: "string \<Rightarrow> (string \<times> json) list" where
  "openai_provider key =
     [(''openai'', JObject
        [(''api'', JString ''openai-completions''),
         (''apiKey'', JString key),
         (''baseUrl'', JString ''https://api.openai.com/v1''),
         (''models'', JArray
            [JObject [(''id'', JString ''gpt-4o''), (''name'', JString ''GPT-4o''),
                      (''contextWindow'', JNumber 128000), (''maxTokens'', JNumber 4096)]])])]"

text \<open>
  The \<^verbatim>\<open>if\<close> chain of lines 20 to 56: the pair \<^verbatim>\<open>(providerConfig, defaultModel)\<close> it
  assigns, or \<open>None\<close> where the last branch returns from the function.
\<close>

definition select_provider :: "env \<Rightarrow> ((string \<times> json) list \<times> string) option" where
  "select_provider e =
     (if truthy (GEMINI_API_KEY e) then
        Some (gemini_provider (str_of (GEMINI_API_KEY e)), ''google-gemini/gemini-2.0-flash'')
      else if truthy (ANTHROPIC_API_KEY e) then
        Some (anthropic_provider (str_of (ANTHROPIC_API_KEY e)) (ANTHROPIC_BASE_URL e),
              ''anthropic/claude-sonnet-4-20250514'')
      else if truthy (OPENAI_API_KEY e) then
        Some (openai_provider (str_of (OPENAI_API_KEY e)), ''openai/gpt-4o'')
      else None)"

text \<open>The object \<^verbatim>\<open>config\<close> of lines 58 to 71.\<close>

definition build_config :: "externals \<Rightarrow> env \<Rightarrow> (string \<times> json) list \<Rightarrow> string \<Rightarrow> json" where
  "build_config x e providerConfig defaultModel =
     (let gatewayToken = or_else (MOLTBOT_GATEWAY_TOKEN e) [] in
      JObject
        [(''gateway'', JObject
            [(''port'', JNumber (MOLTBOT_PORT x)),
             (''mode'', JString ''local''),
             (''bind'', JString ''lan''),
             (''trustedProxies'', JArray [JString ''10.1.0.0'']),
             (''auth'', if gatewayToken \<noteq> [] then JObject [(''token'', JString gatewayToken)]
                        else JObject []),
             (''controlUi'', JObject [(''allowInsecureAuth'', JBool (DEV_MODE e = Some ''true''))])]),
         (''models'', JObject [(''providers'', JObject providerConfig)]),
         (''agents'', JObject [(''defaults'', JObject
            [(''model'', if defaultModel \<noteq> [] then JObject [(''primary'', JString defaultModel)]
                         else JObject [])])]),
         (''channels'', JObject [])])"

section \<open>Sandbox calls, each recorded in the trace\<close>

definition ensureRcloneConfig :: "'w sandbox \<Rightarrow> env \<Rightarrow> ('w, bool) prog" where
  "ensureRcloneConfig sb e = call EnsureRcloneConfig (sb_ensureRcloneConfig sb e)"

definition listProcesses :: "'w sandbox \<Rightarrow> ('w, process list) prog" where
  "listProcesses sb = call ListProcesses (sb_listProcesses sb)"

definition startProcess ::
  "'w sandbox \<Rightarrow> string \<Rightarrow> (string \<times> string) list option \<Rightarrow> ('w, process) prog" where
  "startProcess sb cmd envOpt = call (StartProcess cmd envOpt) (sb_startProcess sb cmd envOpt)"

definition waitForProcess :: "'w sandbox \<Rightarrow> process \<Rightarrow> nat \<Rightarrow> ('w, unit) prog" where
  "waitForProcess sb p t = call (WaitForProcess p t) (sb_waitForProcess sb p t)"

definition waitForPort :: "'w sandbox \<Rightarrow> process \<Rightarrow> nat \<Rightarrow> string \<Rightarrow> nat \<Rightarrow> ('w, unit) prog" where
  "waitForPort sb p port mode t = call (WaitForPort p port mode t) (sb_waitForPort sb p port mode t)"

definition getLogs :: "'w sandbox \<Rightarrow> process \<Rightarrow> ('w, logs) prog" where
  "getLogs sb p = call (GetLogs p) (sb_getLogs sb p)"

definition kill :: "'w sandbox \<Rightarrow> process \<Rightarrow> ('w, unit) prog" where
  "kill sb p = call (Kill p) (sb_kill sb p)"

section \<open>\<^verbatim>\<open>preseedOpenClawConfig\<close> (lines 13 to 90)\<close>

text \<open>
  The template literal of line 77: the script given to \<^verbatim>\<open>node -e\<close>, the text before the
  payload, and the whole command around the escaped payload.
\<close>

definition node_script :: string where
  \<open>node_script =
     ''require("fs").writeFileSync("/root/.openclaw/openclaw.json", JSON.stringify(JSON.parse(process.argv[1]), null, 2))''\<close>

definition writeCmd_prefix :: string where
  "writeCmd_prefix =
     ''mkdir -p /root/.openclaw && node -e '' @ [CHR 0x27] @ node_script @ [CHR 0x27] @ '' ''"

definition writeCmd :: "string \<Rightarrow> string" where
  "writeCmd escaped = writeCmd_prefix @ [CHR 0x27] @ escaped @ [CHR 0x27]"

definition preseedOpenClawConfig :: "externals \<Rightarrow> 'w sandbox \<Rightarrow> env \<Rightarrow> ('w, unit) prog" where
  "preseedOpenClawConfig x sb e =
     (case select_provider e of
        None \<Rightarrow> return_prog ()
      | Some (providerConfig, defaultModel) \<Rightarrow>
          (let config = build_config x e providerConfig defaultModel;
               configJson = JSON_stringify x config;
               escaped = escape_quotes configJson
           in try_catch
                (bind_prog (startProcess sb (writeCmd escaped) None) (\<lambda>proc.
                 bind_prog (waitForProcess sb proc 5000) (\<lambda>_.
                 bind_prog (getLogs sb proc) (\<lambda>logs.
                 return_prog ()))))
                (\<lambda>err. return_prog ())))"

section \<open>\<^verbatim>\<open>findExistingMoltbotProcess\<close> (lines 98 to 127)\<close>

text \<open>
  The \<^verbatim>\<open>for\<close> loop of lines 101 to 122: \<open>Some proc\<close> where it returns \<open>proc\<close>, \<open>None\<close>
  where it runs to the end of the list.
\<close>

fun scan_processes :: "process list \<Rightarrow> process option" where
  "scan_processes [] = None"
| "scan_processes (proc # rest) =
     (let isGatewayProcess =
            (includes_str (command proc) ''start-openclaw.sh'' \<or>
             includes_str (command proc) ''openclaw gateway'' \<or>
             includes_str (command proc) ''start-moltbot.sh'' \<or>
             includes_str (command proc) ''clawdbot gateway'');
          isCliCommand =
            (includes_str (command proc) ''openclaw devices'' \<or>
             includes_str (command proc) ''openclaw --version'' \<or>
             includes_str (command proc) ''openclaw onboard'' \<or>
             includes_str (command proc) ''clawdbot devices'' \<or>
             includes_str (command proc) ''clawdbot --version'')
      in if isGatewayProcess \<and> \<not> isCliCommand then
           (if status proc = ''starting'' \<or> status proc = ''running'' then Some proc
            else scan_processes rest)
         else scan_processes rest)"

definition findExistingMoltbotProcess :: "'w sandbox \<Rightarrow> ('w, process option) prog" where
  "findExistingMoltbotProcess sb =
     try_catch
       (bind_prog (listProcesses sb) (\<lambda>processes. return_prog (scan_processes processes)))
       (\<lambda>err. return_prog None)"

section \<open>\<^verbatim>\<open>ensureMoltbotGateway\<close> (lines 141 to 230)\<close>

definition launch_command :: string where
  "launch_command = ''/usr/local/bin/start-openclaw.sh''"

text \<open>Lines 176 to 229: the fresh start, reached when the function has not returned before.\<close>

definition start_new_gateway :: "externals \<Rightarrow> 'w sandbox \<Rightarrow> env \<Rightarrow> ('w, process) prog" where
  "start_new_gateway x sb e =
     (let envVars = buildEnvVars x e in
      bind_prog (preseedOpenClawConfig x sb e) (\<lambda>_.
      bind_prog
        (try_catch
           (startProcess sb launch_command (if length envVars > 0 then Some envVars else None))
           (\<lambda>startErr. throw_prog startErr)) (\<lambda>proc.
      bind_prog
        (try_catch
           (bind_prog (waitForPort sb proc (MOLTBOT_PORT x) ''tcp'' (STARTUP_TIMEOUT_MS x)) (\<lambda>_.
            bind_prog (getLogs sb proc) (\<lambda>logs.
            return_prog ())))
           (\<lambda>err.
              try_catch
                (bind_prog (getLogs sb proc) (\<lambda>logs.
                 throw_prog
                   (Error (''OpenClaw gateway failed to start. Stderr: '' @
                             (if stderr logs \<noteq> [] then stderr logs else ''(empty)''))
                          (Some err))))
                (\<lambda>logErr. throw_prog err))) (\<lambda>_.
      return_prog proc))))"

text \<open>
  Lines 147 to 174 yield \<open>Some p\<close> where the function returns \<open>p\<close> from inside the
  \<^verbatim>\<open>if\<close> block, and \<open>None\<close> where control reaches line 176.
\<close>

definition ensureMoltbotGateway :: "externals \<Rightarrow> 'w sandbox \<Rightarrow> env \<Rightarrow> ('w, process) prog" where
  "ensureMoltbotGateway x sb e =
     bind_prog (ensureRcloneConfig sb e) (\<lambda>_.
     bind_prog (findExistingMoltbotProcess sb) (\<lambda>existingProcess.
     bind_prog
       (case existingProcess of
          None \<Rightarrow> return_prog None
        | Some existing \<Rightarrow>
            try_catch
              (bind_prog
                 (waitForPort sb existing (MOLTBOT_PORT x) ''tcp'' (STARTUP_TIMEOUT_MS x)) (\<lambda>_.
               return_prog (Some existing)))
              (\<lambda>err.
                 bind_prog (try_catch (kill sb existing) (\<lambda>killError. return_prog ())) (\<lambda>_.
                 return_prog None)))
       (\<lambda>returned. case returned of
          Some p \<Rightarrow> return_prog p
        | None \<Rightarrow> start_new_gateway x sb e)))"

section \<open>The shell's reading of the write command\<close>

text \<open>
  The write command is run by a shell, which is not code of this repository. This is
  the part of its token recognition and quoting rules (POSIX Shell Command Language,
  2.2, 2.3 and 2.9.3) that the command needs: outside quotes, blanks separate words,
  \<^verbatim>\<open>&&\<close> is the operator of an AND list, a single quote opens a quoted segment, and a
  backslash makes the next character stand for itself (a backslash before a newline is
  a line continuation); inside single quotes every character stands for itself up to the
  next single quote. The flag says whether a single quote is open; the second argument
  is the word being read, if one has begun. A command that ends inside a quote or after
  a lone backslash has no reading, and any other unquoted special character (another
  operator, an expansion, a pattern) is outside this fragment: \<open>None\<close>.
\<close>

datatype sh_token = Word string | AndIf

fun word_of :: "string option \<Rightarrow> string" where
  "word_of None = []"
| "word_of (Some w) = w"

fun flush :: "string option \<Rightarrow> sh_token list \<Rightarrow> sh_token list" where
  "flush None ts = ts"
| "flush (Some w) ts = Word w # ts"

definition sh_special :: string where
  \<open>sh_special =
     [CHR ''|'', CHR ''&'', CHR '';'', CHR ''<'', CHR ''>'', CHR ''('', CHR '')'', CHR ''$'',
      CHR 0x60, CHR 0x22, CHR 0x0A, CHR ''*'', CHR ''?'', CHR ''['', CHR ''#'', CHR ''~'',
      CHR ''='', CHR ''%'', CHR ''{'', CHR ''}'', CHR ''!'']\<close>

fun sh_tokens :: "bool \<Rightarrow> string option \<Rightarrow> string \<Rightarrow> sh_token list option" where
  "sh_tokens True cur [] = None"
| "sh_tokens False cur [] = Some (flush cur [])"
| "sh_tokens True cur (c # cs) =
     (if c = CHR 0x27 then sh_tokens False cur cs
      else sh_tokens True (Some (word_of cur @ [c])) cs)"
| "sh_tokens False cur (c # cs) =
     (if c = CHR 0x27 then sh_tokens True (Some (word_of cur)) cs
      else if c = CHR 0x5C then
        (case cs of
           [] \<Rightarrow> None
         | d # ds \<Rightarrow>
             if d = CHR 0x0A then sh_tokens False cur ds
             else sh_tokens False (Some (word_of cur @ [d])) ds)
      else if c = CHR '' '' \<or> c = CHR 0x09 then
        map_option (flush cur) (sh_tokens False None cs)
      else if c = CHR ''&'' then
        (case cs of
           [] \<Rightarrow> None
         | d # ds \<Rightarrow>
             if d = CHR ''&'' then
               map_option (\<lambda>ts. flush cur (AndIf # ts)) (sh_tokens False None ds)
             else None)
      else if c \<in> set sh_special then None
      else sh_tokens False (Some (word_of cur @ [c])) cs)"

text \<open>
  The tokens as an AND list: the simple commands between the \<^verbatim>\<open>&&\<close> operators, each the
  list of its words. A command with no word is a syntax error.
\<close>

fun split_and :: "string list \<Rightarrow> sh_token list \<Rightarrow> string list list option" where
  "split_and cur [] = (if cur = [] then None else Some [cur])"
| "split_and cur (Word w # ts) = split_and (cur @ [w]) ts"
| "split_and cur (AndIf # ts) =
     (if cur = [] then None else map_option ((#) cur) (split_and [] ts))"

definition sh_and_list :: "string \<Rightarrow> string list list option" where
  "sh_and_list cmd =
     (case sh_tokens False None cmd of None \<Rightarrow> None | Some ts \<Rightarrow> split_and [] ts)"

section \<open>The container the write command runs in\<close>

text \<open>
  The container's file system, as far as the write command touches it: the directories
  that exist and the text of each file.
\<close>

record container =
  dirs :: "string set"
  files :: "string \<rightharpoonup> string"

text \<open>
  The JSON functions of the container's \<^verbatim>\<open>node\<close>, which is not code of this repository:
  \<^verbatim>\<open>JSON.parse(text)\<close>, \<open>None\<close> where it throws, and \<^verbatim>\<open>JSON.stringify(value, null, indent)\<close>.
\<close>

record node_runtime =
  node_JSON_parse :: "string \<Rightarrow> json option"
  node_JSON_stringify :: "json \<Rightarrow> nat \<Rightarrow> string"

definition dirname :: "string \<Rightarrow> string" where
  "dirname path = rev (drop 1 (dropWhile (\<lambda>c. c \<noteq> CHR ''/'') (rev path)))"

text \<open>\<^verbatim>\<open>fs.writeFileSync(path, data)\<close>: it throws where the directory of the file does not exist.\<close>

definition writeFileSync :: "string \<Rightarrow> string \<Rightarrow> container \<Rightarrow> error + container" where
  "writeFileSync path data c =
     (if dirname path \<in> dirs c then Inr (c\<lparr>files := (files c)(path \<mapsto> data)\<rparr>)
      else Inl (Error ''ENOENT'' None))"

text \<open>
  The script of line 77, the text \<open>node_script\<close>, as the program it is:
  \<^verbatim>\<open>require("fs").writeFileSync("/root/.openclaw/openclaw.json",
     JSON.stringify(JSON.parse(process.argv[1]), null, 2))\<close>.
  Under \<^verbatim>\<open>node -e\<close> the list \<^verbatim>\<open>process.argv\<close> is the executable followed by the arguments
  after the script; \<^verbatim>\<open>JSON.parse\<close> of a missing argument throws.
\<close>

definition run_node_script :: "node_runtime \<Rightarrow> string list \<Rightarrow> container \<Rightarrow> error + container" where
  "run_node_script n argv c =
     (case (case argv of a0 # a1 # as \<Rightarrow> node_JSON_parse n a1 | _ \<Rightarrow> None) of
        None \<Rightarrow> Inl (Error ''SyntaxError'' None)
      | Some v \<Rightarrow> writeFileSync ''/root/.openclaw/openclaw.json'' (node_JSON_stringify n v 2) c)"

text \<open>\<^verbatim>\<open>mkdir -p d\<close>: it fails where \<open>d\<close> is a file, and otherwise leaves \<open>d\<close> a directory.\<close>

definition mkdir_p :: "string \<Rightarrow> container \<Rightarrow> bool \<times> container" where
  "mkdir_p d c =
     (if files c d = None then (True, c\<lparr>dirs := insert d (dirs c)\<rparr>) else (False, c))"

text \<open>
  One simple command, with whether it succeeded. Only the two commands of the write
  command are known; any other fails and changes nothing.
\<close>

definition run_simple :: "node_runtime \<Rightarrow> string list \<Rightarrow> container \<Rightarrow> bool \<times> container" where
  "run_simple n argv c =
     (case argv of
        [] \<Rightarrow> (False, c)
      | prog # args \<Rightarrow>
          if prog = ''mkdir'' then
            (case args of
               [flag, d] \<Rightarrow> if flag = ''-p'' then mkdir_p d c else (False, c)
             | _ \<Rightarrow> (False, c))
          else if prog = ''node'' then
            (case args of
               flag # script # rest \<Rightarrow>
                 if flag = ''-e'' \<and> script = node_script then
                   (case run_node_script n (prog # rest) c of
                      Inl err \<Rightarrow> (False, c)
                    | Inr c' \<Rightarrow> (True, c'))
                 else (False, c)
             | _ \<Rightarrow> (False, c))
          else (False, c))"

text \<open>An AND list runs its commands in order and stops at the first that fails.\<close>

fun run_and_list :: "node_runtime \<Rightarrow> string list list \<Rightarrow> container \<Rightarrow> container" where
  "run_and_list n [] c = c"
| "run_and_list n (cmd # rest) c =
     (case run_simple n cmd c of
        (True, c') \<Rightarrow> run_and_list n rest c'
      | (False, c') \<Rightarrow> c')"

text \<open>
  A sandbox whose world is the container: \<^verbatim>\<open>startProcess\<close> hands the command to the shell,
  and what the command does is done when the call returns. \<^verbatim>\<open>waitForProcess\<close> and
  \<^verbatim>\<open>getLogs\<close> answer as given and leave the container alone.
\<close>

definition container_sandbox ::
  "node_runtime \<Rightarrow> error + unit \<Rightarrow> error + logs \<Rightarrow> container sandbox" where
  "container_sandbox n wp lg =
     \<lparr> sb_ensureRcloneConfig = (\<lambda>e c. (Inr False, c)),
       sb_listProcesses = (\<lambda>c. (Inr [], c)),
       sb_startProcess =
         (\<lambda>cmd envOpt c.
            (Inr \<lparr>proc_id = ''proc_w'', command = cmd, status = ''running''\<rparr>,
             case sh_and_list cmd of None \<Rightarrow> c | Some cmds \<Rightarrow> run_and_list n cmds c)),
       sb_waitForProcess = (\<lambda>p t c. (wp, c)),
       sb_waitForPort = (\<lambda>p port mode t c. (Inr (), c)),
       sb_getLogs = (\<lambda>p c. (lg, c)),
       sb_kill = (\<lambda>p c. (Inr (), c)) \<rparr>"

section \<open>The classifier and the credential selector in the specification's words\<close>

text \<open>
  The specification's classifier: a process is the gateway when its command line matches
  a launcher pattern, matches no management-subcommand pattern, and its status is
  starting or running; the first such process in listing order is returned.
\<close>

definition launcher_patterns :: "string list" where
  "launcher_patterns =
     [''start-openclaw.sh'', ''openclaw gateway'', ''start-moltbot.sh'', ''clawdbot gateway'']"

definition management_patterns :: "string list" where
  "management_patterns =
     [''openclaw devices'', ''openclaw --version'', ''openclaw onboard'', ''clawdbot devices'',
      ''clawdbot --version'']"

definition matches_any :: "string list \<Rightarrow> string \<Rightarrow> bool" where
  "matches_any pats cmd = list_ex (includes_str cmd) pats"

definition is_live :: "process \<Rightarrow> bool" where
  "is_live p = (status p = ''starting'' \<or> status p = ''running'')"

definition is_live_gateway :: "process \<Rightarrow> bool" where
  "is_live_gateway p =
     (matches_any launcher_patterns (command p) \<and>
      \<not> matches_any management_patterns (command p) \<and> is_live p)"

definition spec_classifier :: "process list \<Rightarrow> process option" where
  "spec_classifier ps = find is_live_gateway ps"

text \<open>
  The specification's selector: the credentials in their fixed priority order, each with
  the provider section it populates and that provider's default model; the first one
  whose key is present (defined and not empty) wins.
\<close>

definition credential_priority :: "((env \<Rightarrow> string option) \<times> string \<times> string) list" where
  "credential_priority =
     [(GEMINI_API_KEY, ''google-gemini'', ''google-gemini/gemini-2.0-flash''),
      (ANTHROPIC_API_KEY, ''anthropic'', ''anthropic/claude-sonnet-4-20250514''),
      (OPENAI_API_KEY, ''openai'', ''openai/gpt-4o'')]"

definition spec_selector :: "env \<Rightarrow> (string list \<times> string \<times> string) option" where
  "spec_selector e =
     map_option (\<lambda>(k, name, model). ([name], model, str_of (k e)))
       (find (\<lambda>(k, name, model). truthy (k e)) credential_priority)"

text \<open>\<^verbatim>\<open>obj[k]\<close> on an object literal.\<close>

fun json_field :: "string \<Rightarrow> json \<Rightarrow> json option" where
  "json_field k (JObject kvs) = map_of kvs k"
| "json_field k v = None"

text \<open>
  What the code selects: the names of the populated provider sections, the default
  model, and the \<^verbatim>\<open>apiKey\<close> entry of each populated section.
\<close>

definition selected :: "env \<Rightarrow> (string list \<times> string \<times> json option list) option" where
  "selected e =
     map_option
       (\<lambda>(providerConfig, model).
          (map fst providerConfig, model, map (\<lambda>(name, section). json_field ''apiKey'' section) providerConfig))
       (select_provider e)"

section \<open>Reading a trace\<close>

fun is_kill :: "event \<Rightarrow> bool" where
  "is_kill (Kill p) = True"
| "is_kill ev = False"

fun is_startProcess :: "event \<Rightarrow> bool" where
  "is_startProcess (StartProcess cmd envOpt) = True"
| "is_startProcess ev = False"

text \<open>A launch starts the gateway's script; a config write starts the write command.\<close>

fun is_launch :: "event \<Rightarrow> bool" where
  "is_launch (StartProcess cmd envOpt) = (cmd = launch_command)"
| "is_launch ev = False"

fun is_config_write :: "event \<Rightarrow> bool" where
  "is_config_write (StartProcess cmd envOpt) = prefix writeCmd_prefix cmd"
| "is_config_write ev = False"

text \<open>A readiness probe issued on the gateway port, over TCP, with the full startup timeout.\<close>

fun full_probe :: "externals \<Rightarrow> event \<Rightarrow> bool" where
  "full_probe x (WaitForPort p port mode t) =
     (port = MOLTBOT_PORT x \<and> mode = ''tcp'' \<and> t = STARTUP_TIMEOUT_MS x)"
| "full_probe x ev = True"

text \<open>A property of the trace that a program keeps, whatever the sandbox answers.\<close>

definition keeps :: "(event list \<Rightarrow> bool) \<Rightarrow> ('w, 'a) prog \<Rightarrow> bool" where
  "keeps Q m = (\<forall>s. Q (fst s) \<longrightarrow> Q (fst (snd (m s))))"

section \<open>Concrete sandboxes\<close>

text \<open>
  A sandbox that lists the given processes, starts every command as the process
  \<open>proc_2\<close>, opens the port of the processes whose identifiers are listed, and answers
  \<^verbatim>\<open>getLogs\<close> as given. A probe on any other process times out.
\<close>

definition timeout_error :: error where
  "timeout_error = Error ''waitForPort timed out'' None"

definition scripted_sandbox :: "process list \<Rightarrow> string list \<Rightarrow> error + logs \<Rightarrow> unit sandbox" where
  "scripted_sandbox ps ready lg =
     \<lparr> sb_ensureRcloneConfig = (\<lambda>e w. (Inr True, w)),
       sb_listProcesses = (\<lambda>w. (Inr ps, w)),
       sb_startProcess =
         (\<lambda>cmd envOpt w. (Inr \<lparr>proc_id = ''proc_2'', command = cmd, status = ''starting''\<rparr>, w)),
       sb_waitForProcess = (\<lambda>p t w. (Inr (), w)),
       sb_waitForPort =
         (\<lambda>p port mode t w. (if proc_id p \<in> set ready then Inr () else Inl timeout_error, w)),
       sb_getLogs = (\<lambda>p w. (lg, w)),
       sb_kill = (\<lambda>p w. (Inr (), w)) \<rparr>"

definition old_gateway :: process where
  "old_gateway =
     \<lparr>proc_id = ''proc_1'', command = ''/usr/local/bin/start-openclaw.sh'', status = ''running''\<rparr>"

definition new_gateway :: process where
  "new_gateway =
     \<lparr>proc_id = ''proc_2'', command = ''/usr/local/bin/start-openclaw.sh'', status = ''starting''\<rparr>"

definition both_patterns :: process where
  "both_patterns =
     \<lparr>proc_id = ''proc_a'', command = ''start-openclaw.sh; openclaw devices list'', status = ''running''\<rparr>"

definition exited_gateway :: process where
  "exited_gateway = \<lparr>proc_id = ''proc_b'', command = ''openclaw gateway'', status = ''exited''\<rparr>"

definition crash_logs :: logs where
  "crash_logs = \<lparr>stdout = [], stderr = ''config invalid''\<rparr>"

definition logs_error :: error where
  "logs_error = Error ''getLogs failed'' None"

definition no_keys :: env where
  "no_keys = \<lparr>GEMINI_API_KEY = None, ANTHROPIC_API_KEY = None, ANTHROPIC_BASE_URL = None,
               OPENAI_API_KEY = None, MOLTBOT_GATEWAY_TOKEN = None, DEV_MODE = None\<rparr>"

definition anthropic_only :: env where
  "anthropic_only = no_keys\<lparr>ANTHROPIC_API_KEY := Some ''sk-ant-1''\<rparr>"

definition all_keys :: env where
  "all_keys = no_keys\<lparr>GEMINI_API_KEY := Some ''g-1'', ANTHROPIC_API_KEY := Some ''sk-ant-1'',
                       OPENAI_API_KEY := Some ''sk-o-1''\<rparr>"

definition openai_only :: env where
  "openai_only = no_keys\<lparr>OPENAI_API_KEY := Some ''sk-o-1''\<rparr>"

text \<open>An environment whose only provider key is defined but empty, with a gateway token.\<close>

definition empty_key :: env where
  "empty_key = no_keys\<lparr>MOLTBOT_GATEWAY_TOKEN := Some ''secret'', OPENAI_API_KEY := Some []\<rparr>"

text \<open>A serialized configuration whose API key holds single quotes.\<close>

definition quoted_json :: string where
  "quoted_json =
     [CHR ''{'', CHR 0x22, CHR ''k'', CHR 0x22, CHR '':'', CHR 0x22, CHR ''a'', CHR 0x27, CHR ''b'',
      CHR 0x27, CHR 0x27, CHR 0x22, CHR ''}'']"

section \<open>Concrete externals\<close>

text \<open>
  A rendering of object literals as JSON text, for the examples: strings are quoted with
  the double quote and the backslash escaped, numbers are written in decimal.
\<close>

definition digit_char :: "nat \<Rightarrow> char" where
  "digit_char d = char_of (48 + d)"

function decimal :: "nat \<Rightarrow> string" where
  "decimal n = (if n < 10 then [digit_char n] else decimal (n div 10) @ [digit_char (n mod 10)])"
  by pat_completeness auto
termination
  by (relation "measure (\<lambda>n. n)") auto

declare decimal.simps [simp del]

definition quote_string :: "string \<Rightarrow> string" where
  "quote_string s =
     CHR 0x22 #
     concat (map (\<lambda>c. if c = CHR 0x22 \<or> c = CHR 0x5C then [CHR 0x5C, c] else [c]) s) @
     [CHR 0x22]"

fun join :: "string \<Rightarrow> string list \<Rightarrow> string" where
  "join sep [] = []"
| "join sep [v] = v"
| "join sep (v # u # us) = v @ sep @ join sep (u # us)"

primrec render_json :: "json \<Rightarrow> string" where
  "render_json (JString s) = quote_string s"
| "render_json (JNumber n) = decimal n"
| "render_json (JBool b) = (if b then ''true'' else ''false'')"
| "render_json (JArray vs) = ''['' @ join '','' (map render_json vs) @ '']''"
| "render_json (JObject kvs) =
     ''{'' @ join '','' (map (\<lambda>(k, v). quote_string k @ '':'' @ v) (map (map_prod id render_json) kvs)) @ ''}''"

text \<open>
  Externals for the examples: a port, a startup timeout of three minutes, an environment
  assembler that passes the gateway token on, and the rendering above.
\<close>

definition example_externals :: externals where
  "example_externals =
     \<lparr> MOLTBOT_PORT = 18789,
       STARTUP_TIMEOUT_MS = 180000,
       buildEnvVars =
         (\<lambda>e. case MOLTBOT_GATEWAY_TOKEN e of
                None \<Rightarrow> []
              | Some t \<Rightarrow> [(''OPENCLAW_GATEWAY_TOKEN'', t)]),
       JSON_stringify = render_json \<rparr>"

text \<open>The scripted sandbox, except that no command but the gateway's script can be started.\<close>

definition spawn_error :: error where
  "spawn_error = Error ''startProcess failed'' None"

definition write_failing_sandbox :: "process list \<Rightarrow> string list \<Rightarrow> error + logs \<Rightarrow> unit sandbox" where
  "write_failing_sandbox ps ready lg =
     (scripted_sandbox ps ready lg)
       \<lparr> sb_startProcess :=
           (\<lambda>cmd envOpt w.
              if cmd = launch_command
              then (Inr \<lparr>proc_id = ''proc_2'', command = cmd, status = ''starting''\<rparr>, w)
              else (Inl spawn_error, w)) \<rparr>"

section \<open>The container's node, for the examples\<close>

text \<open>
  A reader of JSON text for the examples, the inverse of \<open>render_json\<close>: strings between
  double quotes with backslash escapes, decimal numbers, \<^verbatim>\<open>true\<close> and \<^verbatim>\<open>false\<close>, arrays and
  objects, with no white space. The first argument bounds the nesting of calls; the
  length of the text is enough (\<open>parse_json_render\<close>).
\<close>

fun parse_string :: "string \<Rightarrow> (string \<times> string) option" where
  "parse_string [] = None"
| "parse_string (c # cs) =
     (if c = CHR 0x22 then Some ([], cs)
      else if c = CHR 0x5C then
        (case cs of
           [] \<Rightarrow> None
         | d # ds \<Rightarrow> map_option (apfst ((#) d)) (parse_string ds))
      else map_option (apfst ((#) c)) (parse_string cs))"

definition is_digit :: "char \<Rightarrow> bool" where
  "is_digit c = (48 \<le> (of_char c :: nat) \<and> (of_char c :: nat) \<le> 57)"

definition digit_value :: "char \<Rightarrow> nat" where
  "digit_value c = of_char c - 48"

definition parse_nat :: "string \<Rightarrow> nat \<times> string" where
  "parse_nat s =
     (foldl (\<lambda>a c. 10 * a + digit_value c) 0 (takeWhile is_digit s), dropWhile is_digit s)"

fun parse_value :: "nat \<Rightarrow> string \<Rightarrow> (json \<times> string) option"
  and parse_elements :: "nat \<Rightarrow> string \<Rightarrow> (json list \<times> string) option"
  and parse_members :: "nat \<Rightarrow> string \<Rightarrow> ((string \<times> json) list \<times> string) option" where
  "parse_value 0 s = None"
| "parse_value (Suc k) [] = None"
| "parse_value (Suc k) (c # cs) =
     (if c = CHR 0x22 then map_option (apfst JString) (parse_string cs)
      else if c = CHR ''['' then
        (case cs of
           [] \<Rightarrow> None
         | d # ds \<Rightarrow>
             if d = CHR '']'' then Some (JArray [], ds)
             else map_option (apfst JArray) (parse_elements k cs))
      else if c = CHR ''{'' then
        (case cs of
           [] \<Rightarrow> None
         | d # ds \<Rightarrow>
             if d = CHR ''}'' then Some (JObject [], ds)
             else map_option (apfst JObject) (parse_members k cs))
      else if prefix ''true'' (c # cs) then Some (JBool True, drop 4 (c # cs))
      else if prefix ''false'' (c # cs) then Some (JBool False, drop 5 (c # cs))
      else if is_digit c then Some (apfst JNumber (parse_nat (c # cs)))
      else None)"
| "parse_elements 0 s = None"
| "parse_elements (Suc k) s =
     (case parse_value k s of
        None \<Rightarrow> None
      | Some (v, r) \<Rightarrow>
          (case r of
             [] \<Rightarrow> None
           | d # ds \<Rightarrow>
               if d = CHR '','' then map_option (apfst ((#) v)) (parse_elements k ds)
               else if d = CHR '']'' then Some ([v], ds)
               else None))"
| "parse_members 0 s = None"
| "parse_members (Suc k) s =
     (case s of
        [] \<Rightarrow> None
      | q # s1 \<Rightarrow>
          if q \<noteq> CHR 0x22 then None
          else
            (case parse_string s1 of
               None \<Rightarrow> None
             | Some (key, s2) \<Rightarrow>
                 (case s2 of
                    [] \<Rightarrow> None
                  | colon # s3 \<Rightarrow>
                      if colon \<noteq> CHR '':'' then None
                      else
                        (case parse_value k s3 of
                           None \<Rightarrow> None
                         | Some (v, r) \<Rightarrow>
                             (case r of
                                [] \<Rightarrow> None
                              | d # ds \<Rightarrow>
                                  if d = CHR '','' then
                                    map_option (apfst ((#) (key, v))) (parse_members k ds)
                                  else if d = CHR ''}'' then Some ([(key, v)], ds)
                                  else None)))))"

definition parse_json :: "string \<Rightarrow> json option" where
  "parse_json s =
     (case parse_value (Suc (length s)) s of
        Some (v, []) \<Rightarrow> Some v
      | _ \<Rightarrow> None)"



text \<open>The calls that reading the rendering of a value takes, and a text that a number can end at.\<close>

primrec fuel_needed :: "json \<Rightarrow> nat" where
  "fuel_needed (JString s) = 1"
| "fuel_needed (JNumber n) = 1"
| "fuel_needed (JBool b) = 1"
| "fuel_needed (JArray vs) = Suc (sum_list (map Suc (map fuel_needed vs)))"
| "fuel_needed (JObject kvs) = Suc (sum_list (map (\<lambda>p. Suc (snd p)) (map (map_prod id fuel_needed) kvs)))"

definition no_digit :: "string \<Rightarrow> bool" where
  "no_digit rest = (case rest of [] \<Rightarrow> True | c # cs \<Rightarrow> \<not> is_digit c)"


text \<open>A rendering with line breaks and indentation, for \<^verbatim>\<open>JSON.stringify(value, null, indent)\<close>.\<close>

primrec render_indented :: "json \<Rightarrow> nat \<Rightarrow> nat \<Rightarrow> string" where
  "render_indented (JString s) = (\<lambda>step cur. quote_string s)"
| "render_indented (JNumber n) = (\<lambda>step cur. decimal n)"
| "render_indented (JBool b) = (\<lambda>step cur. if b then ''true'' else ''false'')"
| "render_indented (JArray vs) =
     (\<lambda>step cur.
        if vs = [] then ''[]''
        else ''['' @ [CHR 0x0A] @
             join ('','' @ [CHR 0x0A])
               (map (\<lambda>f. replicate (cur + step) (CHR '' '') @ f step (cur + step))
                  (map render_indented vs)) @
             [CHR 0x0A] @ replicate cur (CHR '' '') @ '']'')"
| "render_indented (JObject kvs) =
     (\<lambda>step cur.
        if kvs = [] then ''{}''
        else ''{'' @ [CHR 0x0A] @
             join ('','' @ [CHR 0x0A])
               (map (\<lambda>(k, f). replicate (cur + step) (CHR '' '') @ quote_string k @ '': '' @
                                f step (cur + step))
                  (map (map_prod id render_indented) kvs)) @
             [CHR 0x0A] @ replicate cur (CHR '' '') @ ''}'')"


definition example_node :: node_runtime where
  "example_node =
     \<lparr> node_JSON_parse = parse_json,
       node_JSON_stringify = (\<lambda>v indent. render_indented v indent 0) \<rparr>"

definition empty_container :: container where
  "empty_container = \<lparr>dirs = {}, files = Map.empty\<rparr>"

text \<open>An OpenAI key that holds a single quote, a double quote and a backslash.\<close>

definition quote_key :: env where
  "quote_key =
     no_keys\<lparr>OPENAI_API_KEY := Some [CHR ''s'', CHR ''k'', CHR 0x27, CHR 0x22, CHR 0x5C, CHR ''1''],
             MOLTBOT_GATEWAY_TOKEN := Some ''secret''\<rparr>"

section \<open>Lemmas on the effects\<close>

lemmas prog_defs = return_prog_def throw_prog_def bind_prog_def try_catch_def call_def
  ensureRcloneConfig_def listProcesses_def startProcess_def waitForProcess_def waitForPort_def
  getLogs_def kill_def

lemmas gateway_defs = ensureMoltbotGateway_def findExistingMoltbotProcess_def start_new_gateway_def

lemmas example_defs = scripted_sandbox_def write_failing_sandbox_def old_gateway_def
  new_gateway_def crash_logs_def logs_error_def timeout_error_def spawn_error_def
  example_externals_def no_keys_def anthropic_only_def all_keys_def openai_only_def empty_key_def

text \<open>\<open>includes_str\<close> is the substring test.\<close>

lemma includes_str_sublist: "includes_str h n \<longleftrightarrow> sublist n h"
  by (induction h) (auto simp: sublist_Cons_right)

subsection \<open>Properties of the trace kept by every step\<close>

lemma keeps_return: "keeps Q (return_prog x)"
  by (simp add: keeps_def return_prog_def)

lemma keeps_throw: "keeps Q (throw_prog e)"
  by (simp add: keeps_def throw_prog_def)

lemma keeps_bind:
  fixes m :: "('w, 'a) prog"
  assumes "keeps Q m" and "\<And>v. keeps Q (f v)"
  shows "keeps Q (bind_prog m f)"
  unfolding keeps_def
proof (intro allI impI)
  fix s :: "'w state"
  assume q: "Q (fst s)"
  obtain r s' where ms: "m s = (r, s')" by (cases "m s")
  from assms(1) [unfolded keeps_def, rule_format, OF q] ms have q': "Q (fst s')" by simp
  show "Q (fst (snd (bind_prog m f s)))"
  proof (cases r)
    case (Inl e)
    with ms q' show ?thesis by (simp add: bind_prog_def)
  next
    case (Inr v)
    have "Q (fst (snd (f v s')))" by (rule assms(2) [unfolded keeps_def, rule_format, OF q'])
    with ms Inr show ?thesis by (simp add: bind_prog_def)
  qed
qed

lemma keeps_try:
  fixes m :: "('w, 'a) prog"
  assumes "keeps Q m" and "\<And>e. keeps Q (h e)"
  shows "keeps Q (try_catch m h)"
  unfolding keeps_def
proof (intro allI impI)
  fix s :: "'w state"
  assume q: "Q (fst s)"
  obtain r s' where ms: "m s = (r, s')" by (cases "m s")
  from assms(1) [unfolded keeps_def, rule_format, OF q] ms have q': "Q (fst s')" by simp
  show "Q (fst (snd (try_catch m h s)))"
  proof (cases r)
    case (Inr v)
    with ms q' show ?thesis by (simp add: try_catch_def)
  next
    case (Inl e)
    have "Q (fst (snd (h e s')))" by (rule assms(2) [unfolded keeps_def, rule_format, OF q'])
    with ms Inl show ?thesis by (simp add: try_catch_def)
  qed
qed

lemma keeps_call:
  assumes "\<And>tr. Q tr \<Longrightarrow> Q (tr @ [ev])"
  shows "keeps Q (call ev op)"
  using assms by (auto simp: keeps_def call_def split: prod.splits)

lemma keeps_preseed:
  assumes step: "\<And>tr ev. Q tr \<Longrightarrow> full_probe x ev \<Longrightarrow> Q (tr @ [ev])"
  shows "keeps Q (preseedOpenClawConfig x sb e)"
  unfolding preseedOpenClawConfig_def Let_def startProcess_def waitForProcess_def getLogs_def
  by (auto split: option.splits intro!: keeps_return keeps_try keeps_bind keeps_call step)

lemma keeps_findExisting:
  assumes step: "\<And>tr. Q tr \<Longrightarrow> Q (tr @ [ListProcesses])"
  shows "keeps Q (findExistingMoltbotProcess sb)"
  unfolding findExistingMoltbotProcess_def listProcesses_def
  by (auto intro!: keeps_return keeps_try keeps_bind keeps_call step)

lemma keeps_start_new:
  assumes step: "\<And>tr ev. Q tr \<Longrightarrow> full_probe x ev \<Longrightarrow> Q (tr @ [ev])"
  shows "keeps Q (start_new_gateway x sb e)"
  unfolding start_new_gateway_def Let_def startProcess_def waitForPort_def getLogs_def
  by (auto intro!: keeps_return keeps_throw keeps_try keeps_bind keeps_call keeps_preseed step)

lemma keeps_ensure:
  assumes step: "\<And>tr ev. Q tr \<Longrightarrow> full_probe x ev \<Longrightarrow> Q (tr @ [ev])"
  shows "keeps Q (ensureMoltbotGateway x sb e)"
  unfolding ensureMoltbotGateway_def ensureRcloneConfig_def waitForPort_def kill_def
  by (auto split: option.splits
      intro!: keeps_return keeps_throw keeps_try keeps_bind keeps_call keeps_findExisting
        keeps_start_new step)

lemma all_probes_full: "list_all (full_probe x) (trace_of (ensureMoltbotGateway x sb e) w)"
proof -
  have "keeps (list_all (full_probe x)) (ensureMoltbotGateway x sb e)"
    by (rule keeps_ensure) simp
  then show ?thesis by (simp add: keeps_def trace_of_def)
qed

lemma start_new_extends: "prefix tr (fst (snd (start_new_gateway x sb e (tr, w))))"
proof -
  have "keeps (prefix tr) (start_new_gateway x sb e)"
    by (rule keeps_start_new) simp
  then show ?thesis by (simp add: keeps_def)
qed

subsection \<open>The paths through the supervisor\<close>

lemma writeCmd_not_launch: "writeCmd escaped \<noteq> launch_command"
  by (simp add: writeCmd_def writeCmd_prefix_def launch_command_def)

lemma writeCmd_is_write: "prefix writeCmd_prefix (writeCmd escaped)"
  by (simp add: writeCmd_def)

lemma launch_not_write: "\<not> prefix writeCmd_prefix launch_command"
  by (simp add: writeCmd_prefix_def launch_command_def)

lemma preseed_returns: "fst (preseedOpenClawConfig x sb e s) = Inr ()"
  by (cases s)
    (simp add: preseedOpenClawConfig_def prog_defs Let_def
      split: option.splits prod.splits sum.splits)

lemma select_provider_None:
  "select_provider e = None \<longleftrightarrow>
   \<not> truthy (GEMINI_API_KEY e) \<and> \<not> truthy (ANTHROPIC_API_KEY e) \<and> \<not> truthy (OPENAI_API_KEY e)"
  by (simp add: select_provider_def)

lemma start_new_launches: "list_ex is_launch (fst (snd (start_new_gateway x sb e s)))"
proof -
  obtain tr1 w1 where p: "preseedOpenClawConfig x sb e s = (Inr (), (tr1, w1))"
    using preseed_returns [of x sb e s] by (cases "preseedOpenClawConfig x sb e s") auto
  then show ?thesis
    by (simp add: start_new_gateway_def prog_defs Let_def split: prod.splits sum.splits)
qed

lemma findExisting_listed:
  "sb_listProcesses sb w = (Inr ps, w') \<Longrightarrow>
   findExistingMoltbotProcess sb (tr, w) = (Inr (scan_processes ps), (tr @ [ListProcesses], w'))"
  by (simp add: findExistingMoltbotProcess_def prog_defs)

lemma reuse_returns:
  assumes rclone: "sb_ensureRcloneConfig sb e w = (Inr b, w1)"
    and listed: "sb_listProcesses sb w1 = (Inr ps, w2)"
    and found: "scan_processes ps = Some existing"
    and ready: "sb_waitForPort sb existing (MOLTBOT_PORT x) ''tcp'' (STARTUP_TIMEOUT_MS x) w2 = (Inr (), w3)"
  shows "ensureMoltbotGateway x sb e ([], w) =
      (Inr existing,
       ([EnsureRcloneConfig, ListProcesses,
         WaitForPort existing (MOLTBOT_PORT x) ''tcp'' (STARTUP_TIMEOUT_MS x)], w3))"
  using assms
  by (simp add: ensureMoltbotGateway_def findExistingMoltbotProcess_def prog_defs)

lemma restart_enters_fresh_start:
  assumes rclone: "sb_ensureRcloneConfig sb e w = (Inr b, w1)"
    and listed: "sb_listProcesses sb w1 = (Inr ps, w2)"
    and found: "scan_processes ps = Some existing"
    and probe: "sb_waitForPort sb existing (MOLTBOT_PORT x) ''tcp'' (STARTUP_TIMEOUT_MS x) w2 = (Inl err, w3)"
    and killed: "sb_kill sb existing w3 = (k, w4)"
  shows "ensureMoltbotGateway x sb e ([], w) =
         start_new_gateway x sb e
           ([EnsureRcloneConfig, ListProcesses,
             WaitForPort existing (MOLTBOT_PORT x) ''tcp'' (STARTUP_TIMEOUT_MS x), Kill existing], w4)"
  using assms
  by (simp add: ensureMoltbotGateway_def findExistingMoltbotProcess_def prog_defs split: sum.splits)

text \<open>
  The fresh start, for every sandbox: a probe that times out ends in the probe's own
  error whatever \<^verbatim>\<open>getLogs\<close> answers, since the error built from the captured output is
  thrown inside the \<^verbatim>\<open>try\<close> whose \<^verbatim>\<open>catch\<close> rethrows the probe's error; and a failing
  \<^verbatim>\<open>getLogs\<close> after a successful probe ends in that failure.
\<close>

lemma probe_timeout_rethrows_original:
  assumes pre: "preseedOpenClawConfig x sb e s = (Inr (), (tr1, w1))"
    and start: "sb_startProcess sb launch_command
                  (if length (buildEnvVars x e) > 0 then Some (buildEnvVars x e) else None) w1 = (Inr p, w2)"
    and probe: "sb_waitForPort sb p (MOLTBOT_PORT x) ''tcp'' (STARTUP_TIMEOUT_MS x) w2 = (Inl err, w3)"
  shows "fst (start_new_gateway x sb e s) = Inl err"
  using assms
  by (simp add: start_new_gateway_def prog_defs Let_def split: option.splits prod.splits sum.splits)

lemma getLogs_failure_after_ready_is_thrown:
  assumes pre: "preseedOpenClawConfig x sb e s = (Inr (), (tr1, w1))"
    and start: "sb_startProcess sb launch_command
                  (if length (buildEnvVars x e) > 0 then Some (buildEnvVars x e) else None) w1 = (Inr p, w2)"
    and probe: "sb_waitForPort sb p (MOLTBOT_PORT x) ''tcp'' (STARTUP_TIMEOUT_MS x) w2 = (Inr (), w3)"
    and logs: "sb_getLogs sb p w3 = (Inl err, w4)"
  shows "fst (start_new_gateway x sb e s) = Inl err"
  using assms
  by (simp add: start_new_gateway_def prog_defs Let_def split: option.splits prod.splits sum.splits)

lemma ready_with_logs_returns_new:
  assumes pre: "preseedOpenClawConfig x sb e s = (Inr (), (tr1, w1))"
    and start: "sb_startProcess sb launch_command
                  (if length (buildEnvVars x e) > 0 then Some (buildEnvVars x e) else None) w1 = (Inr p, w2)"
    and probe: "sb_waitForPort sb p (MOLTBOT_PORT x) ''tcp'' (STARTUP_TIMEOUT_MS x) w2 = (Inr (), w3)"
    and logs: "sb_getLogs sb p w3 = (Inr lg, w4)"
  shows "fst (start_new_gateway x sb e s) = Inr p"
  using assms
  by (simp add: start_new_gateway_def prog_defs Let_def split: option.splits prod.splits sum.splits)

text \<open>
  The restart path, for every sandbox: one kill, of the old process, whatever the kill
  answers; one launch; one config write where a provider key is present, none otherwise.
\<close>

lemma preseed_counts:
  "filter is_kill (fst (snd (preseedOpenClawConfig x sb e (tr, w)))) = filter is_kill tr \<and>
   filter is_launch (fst (snd (preseedOpenClawConfig x sb e (tr, w)))) = filter is_launch tr \<and>
   length (filter is_config_write (fst (snd (preseedOpenClawConfig x sb e (tr, w))))) =
     length (filter is_config_write tr) + (if select_provider e = None then 0 else 1)"
  by (simp add: preseedOpenClawConfig_def prog_defs Let_def writeCmd_not_launch writeCmd_is_write
      split: option.splits prod.splits sum.splits)

lemma start_new_after_preseed:
  assumes p: "preseedOpenClawConfig x sb e s = (Inr (), (tr1, w1))"
  shows "\<exists>envOpt post.
     fst (snd (start_new_gateway x sb e s)) = tr1 @ StartProcess launch_command envOpt # post \<and>
     list_all (\<lambda>ev. \<not> is_startProcess ev \<and> \<not> is_kill ev) post"
  using p
  by (simp add: start_new_gateway_def prog_defs Let_def split: prod.splits sum.splits)

lemma launch_is_start: "is_launch ev \<Longrightarrow> is_startProcess ev"
  by (cases ev) simp_all

lemma write_is_start: "is_config_write ev \<Longrightarrow> is_startProcess ev"
  by (cases ev) simp_all

lemma filter_none:
  "list_all (\<lambda>ev. \<not> Q ev) xs \<Longrightarrow> (\<And>ev. P ev \<Longrightarrow> Q ev) \<Longrightarrow> filter P xs = []"
  by (induction xs) auto

lemma start_new_counts:
  "filter is_kill (fst (snd (start_new_gateway x sb e (tr, w)))) = filter is_kill tr \<and>
   length (filter is_launch (fst (snd (start_new_gateway x sb e (tr, w))))) =
     length (filter is_launch tr) + 1 \<and>
   length (filter is_config_write (fst (snd (start_new_gateway x sb e (tr, w))))) =
     length (filter is_config_write tr) + (if select_provider e = None then 0 else 1)"
proof -
  obtain tr1 w1 where p: "preseedOpenClawConfig x sb e (tr, w) = (Inr (), (tr1, w1))"
    using preseed_returns [of x sb e "(tr, w)"]
    by (cases "preseedOpenClawConfig x sb e (tr, w)") auto
  with preseed_counts [of x sb e tr w]
  have c: "filter is_kill tr1 = filter is_kill tr" "filter is_launch tr1 = filter is_launch tr"
    "length (filter is_config_write tr1) =
     length (filter is_config_write tr) + (if select_provider e = None then 0 else 1)"
    by simp_all
  from start_new_after_preseed [OF p] obtain envOpt post where
    t: "fst (snd (start_new_gateway x sb e (tr, w))) = tr1 @ StartProcess launch_command envOpt # post"
    and post: "list_all (\<lambda>ev. \<not> is_startProcess ev \<and> \<not> is_kill ev) post"
    by blast
  from post have ns: "list_all (\<lambda>ev. \<not> is_startProcess ev) post"
    and nk: "list_all (\<lambda>ev. \<not> is_kill ev) post"
    by (simp_all add: list_all_iff)
  have k: "filter is_kill post = []"
    by (rule filter_none [OF nk])
  have l: "filter is_launch post = []"
    by (rule filter_none [OF ns launch_is_start])
  have cw: "filter is_config_write post = []"
    by (rule filter_none [OF ns write_is_start])
  show ?thesis
    unfolding t using c k l cw by (simp add: launch_not_write)
qed

lemma restart_path_counts:
  assumes rclone: "sb_ensureRcloneConfig sb e w = (Inr b, w1)"
    and listed: "sb_listProcesses sb w1 = (Inr ps, w2)"
    and found: "scan_processes ps = Some existing"
    and probe: "sb_waitForPort sb existing (MOLTBOT_PORT x) ''tcp'' (STARTUP_TIMEOUT_MS x) w2 = (Inl err, w3)"
  shows "filter is_kill (trace_of (ensureMoltbotGateway x sb e) w) = [Kill existing] \<and>
         length (filter is_launch (trace_of (ensureMoltbotGateway x sb e) w)) = 1 \<and>
         length (filter is_config_write (trace_of (ensureMoltbotGateway x sb e) w)) =
           (if select_provider e = None then 0 else 1)"
proof -
  obtain k w4 where killed: "sb_kill sb existing w3 = (k, w4)"
    by (cases "sb_kill sb existing w3")
  from restart_enters_fresh_start [OF rclone listed found probe killed]
    start_new_counts [of x sb e "[EnsureRcloneConfig, ListProcesses,
             WaitForPort existing (MOLTBOT_PORT x) ''tcp'' (STARTUP_TIMEOUT_MS x), Kill existing]" w4]
  show ?thesis
    by (simp add: trace_of_def)
qed

section \<open>The process classifier\<close>

lemma scan_processes_find: "scan_processes ps = find is_live_gateway ps"
  by (induction ps)
    (simp_all add: is_live_gateway_def matches_any_def launcher_patterns_def
      management_patterns_def is_live_def Let_def)

text \<open>
  Claim C5. For every process list, \<open>findExistingMoltbotProcess\<close> returns what its loop
  \<open>scan_processes\<close> returns, and that is the specification's classifier: the first process
  in listing order whose command line matches a launcher pattern, matches no
  management-subcommand pattern, and whose status is starting or running; none when
  there is no such process. So a process matching both a launcher and a management
  pattern is never returned, a process in a terminal status is never returned, and of
  \<^verbatim>\<open>["openclaw gateway", "openclaw devices list"]\<close>, both running, the first is returned.
\<close>

theorem classifier_characterization:
  "(\<forall>sb (w::'w) w'. sb_listProcesses sb w = (Inr ps, w') \<longrightarrow>
       result_of (findExistingMoltbotProcess sb) w = Inr (scan_processes ps)) \<and>
   scan_processes ps = spec_classifier ps \<and>
   (\<forall>p. scan_processes ps = Some p \<longrightarrow>
      (\<exists>i < length ps. ps ! i = p \<and> is_live_gateway p \<and> (\<forall>j < i. \<not> is_live_gateway (ps ! j)))) \<and>
   (scan_processes ps = None \<longleftrightarrow> \<not> (\<exists>p \<in> set ps. is_live_gateway p)) \<and>
   (\<forall>p. matches_any launcher_patterns (command p) \<and> matches_any management_patterns (command p) \<longrightarrow>
      scan_processes ps \<noteq> Some p) \<and>
   (\<forall>p. \<not> is_live p \<longrightarrow> scan_processes ps \<noteq> Some p) \<and>
   scan_processes
     [\<lparr>proc_id = i1, command = ''openclaw gateway'', status = ''running''\<rparr>,
      \<lparr>proc_id = i2, command = ''openclaw devices list'', status = ''running''\<rparr>] =
     Some \<lparr>proc_id = i1, command = ''openclaw gateway'', status = ''running''\<rparr>"
proof -
  have listed: "\<forall>sb (w::'w) w'. sb_listProcesses sb w = (Inr ps, w') \<longrightarrow>
       result_of (findExistingMoltbotProcess sb) w = Inr (scan_processes ps)"
    by (simp add: result_of_def findExisting_listed)
  have spec: "scan_processes ps = spec_classifier ps"
    by (simp add: scan_processes_find spec_classifier_def)
  have first: "\<forall>p. scan_processes ps = Some p \<longrightarrow>
      (\<exists>i < length ps. ps ! i = p \<and> is_live_gateway p \<and> (\<forall>j < i. \<not> is_live_gateway (ps ! j)))"
    unfolding scan_processes_find find_Some_iff by blast
  have none: "scan_processes ps = None \<longleftrightarrow> \<not> (\<exists>p \<in> set ps. is_live_gateway p)"
    unfolding scan_processes_find find_None_iff by blast
  have sat: "is_live_gateway p" if "scan_processes ps = Some p" for p
    using that first by blast
  have both: "\<forall>p. matches_any launcher_patterns (command p) \<and> matches_any management_patterns (command p) \<longrightarrow>
      scan_processes ps \<noteq> Some p"
    using sat by (auto simp: is_live_gateway_def)
  have terminal: "\<forall>p. \<not> is_live p \<longrightarrow> scan_processes ps \<noteq> Some p"
    using sat by (auto simp: is_live_gateway_def)
  have example: "scan_processes
     [\<lparr>proc_id = i1, command = ''openclaw gateway'', status = ''running''\<rparr>,
      \<lparr>proc_id = i2, command = ''openclaw devices list'', status = ''running''\<rparr>] =
     Some \<lparr>proc_id = i1, command = ''openclaw gateway'', status = ''running''\<rparr>"
    by simp
  from listed spec first none both terminal example show ?thesis by blast
qed

theorem classifier_characterization_witness:
  "result_of (findExistingMoltbotProcess
       (scripted_sandbox [both_patterns, exited_gateway, old_gateway, new_gateway] []
          (Inr crash_logs))) () = Inr (Some old_gateway) \<and>
   is_live_gateway old_gateway \<and>
   matches_any launcher_patterns (command both_patterns) \<and>
   matches_any management_patterns (command both_patterns) \<and>
   scan_processes [both_patterns, exited_gateway, old_gateway, new_gateway] \<noteq> Some both_patterns \<and>
   \<not> is_live exited_gateway \<and>
   scan_processes [both_patterns, exited_gateway, old_gateway, new_gateway] \<noteq> Some exited_gateway"
proof -
  let ?ps = "[both_patterns, exited_gateway, old_gateway, new_gateway]"
  let ?sb = "scripted_sandbox ?ps [] (Inr crash_logs)"
  note th = classifier_characterization [where ps = ?ps]
  have listed: "sb_listProcesses ?sb () = (Inr ?ps, ())"
    by (simp add: scripted_sandbox_def)
  have found: "scan_processes ?ps = Some old_gateway"
    by (simp add: old_gateway_def both_patterns_def exited_gateway_def)
  have "result_of (findExistingMoltbotProcess ?sb) () = Inr (scan_processes ?ps)"
    by (rule th [THEN conjunct1, rule_format, OF listed])
  with found have r: "result_of (findExistingMoltbotProcess ?sb) () = Inr (Some old_gateway)"
    by simp
  from th [THEN conjunct2, THEN conjunct2, THEN conjunct1, rule_format, OF found]
  have g: "is_live_gateway old_gateway"
    by (elim exE conjE) simp
  have m: "matches_any launcher_patterns (command both_patterns) \<and>
      matches_any management_patterns (command both_patterns)"
    by (simp add: matches_any_def launcher_patterns_def management_patterns_def both_patterns_def)
  have n: "scan_processes ?ps \<noteq> Some both_patterns"
    by (rule th [THEN conjunct2, THEN conjunct2, THEN conjunct2, THEN conjunct2, THEN conjunct1,
          rule_format, OF m])
  have d: "\<not> is_live exited_gateway"
    by (simp add: is_live_def exited_gateway_def)
  have t: "scan_processes ?ps \<noteq> Some exited_gateway"
    by (rule th [THEN conjunct2, THEN conjunct2, THEN conjunct2, THEN conjunct2, THEN conjunct2,
          THEN conjunct1, rule_format, OF d])
  from r g m n d t show ?thesis by simp
qed

section \<open>The credential selector\<close>

lemma selected_spec:
  "selected e =
     map_option (\<lambda>(names, model, key). (names, model, [Some (JString key)])) (spec_selector e)"
  by (simp add: selected_def spec_selector_def select_provider_def credential_priority_def
      gemini_provider_def anthropic_provider_def openai_provider_def)

text \<open>
  Claim C6. For every credential set the provider section is chosen by the fixed priority
  order Gemini, Anthropic, OpenAI: what the code selects (section names, default model,
  the section's API key) is what the specification's selector gives for the first present
  key, a key being present when it is defined and not empty. Where a section is selected
  it is the only one, and it is the \<^verbatim>\<open>providers\<close> object of the configuration document.
  Keys of lower priority are ignored: changing them does not change the selection. With
  the Anthropic key and no Gemini key the section is \<^verbatim>\<open>anthropic\<close> and the default model
  \<^verbatim>\<open>anthropic/claude-sonnet-4-20250514\<close>.
\<close>

theorem credential_precedence:
  "selected e =
     map_option (\<lambda>(names, model, key). (names, model, [Some (JString key)])) (spec_selector e) \<and>
   (\<forall>providerConfig model. select_provider e = Some (providerConfig, model) \<longrightarrow>
      length providerConfig = 1 \<and>
      json_field ''models'' (build_config x e providerConfig model) =
        Some (JObject [(''providers'', JObject providerConfig)])) \<and>
   (truthy (GEMINI_API_KEY e) \<longrightarrow>
      selected e = Some ([''google-gemini''], ''google-gemini/gemini-2.0-flash'',
                         [Some (JString (str_of (GEMINI_API_KEY e)))])) \<and>
   (\<not> truthy (GEMINI_API_KEY e) \<and> truthy (ANTHROPIC_API_KEY e) \<longrightarrow>
      selected e = Some ([''anthropic''], ''anthropic/claude-sonnet-4-20250514'',
                         [Some (JString (str_of (ANTHROPIC_API_KEY e)))])) \<and>
   (\<not> truthy (GEMINI_API_KEY e) \<and> \<not> truthy (ANTHROPIC_API_KEY e) \<and> truthy (OPENAI_API_KEY e) \<longrightarrow>
      selected e = Some ([''openai''], ''openai/gpt-4o'',
                         [Some (JString (str_of (OPENAI_API_KEY e)))])) \<and>
   (truthy (GEMINI_API_KEY e) \<longrightarrow>
      select_provider (e\<lparr>ANTHROPIC_API_KEY := a, ANTHROPIC_BASE_URL := u, OPENAI_API_KEY := b\<rparr>) =
      select_provider e) \<and>
   (\<not> truthy (GEMINI_API_KEY e) \<and> truthy (ANTHROPIC_API_KEY e) \<longrightarrow>
      select_provider (e\<lparr>OPENAI_API_KEY := b\<rparr>) = select_provider e)"
proof -
  have one: "\<forall>providerConfig model. select_provider e = Some (providerConfig, model) \<longrightarrow>
      length providerConfig = 1 \<and>
      json_field ''models'' (build_config x e providerConfig model) =
        Some (JObject [(''providers'', JObject providerConfig)])"
    by (auto simp: select_provider_def gemini_provider_def anthropic_provider_def
        openai_provider_def build_config_def Let_def split: if_splits)
  have sel: "(truthy (GEMINI_API_KEY e) \<longrightarrow>
      selected e = Some ([''google-gemini''], ''google-gemini/gemini-2.0-flash'',
                         [Some (JString (str_of (GEMINI_API_KEY e)))])) \<and>
   (\<not> truthy (GEMINI_API_KEY e) \<and> truthy (ANTHROPIC_API_KEY e) \<longrightarrow>
      selected e = Some ([''anthropic''], ''anthropic/claude-sonnet-4-20250514'',
                         [Some (JString (str_of (ANTHROPIC_API_KEY e)))])) \<and>
   (\<not> truthy (GEMINI_API_KEY e) \<and> \<not> truthy (ANTHROPIC_API_KEY e) \<and> truthy (OPENAI_API_KEY e) \<longrightarrow>
      selected e = Some ([''openai''], ''openai/gpt-4o'',
                         [Some (JString (str_of (OPENAI_API_KEY e)))]))"
    by (simp add: selected_def select_provider_def gemini_provider_def anthropic_provider_def
        openai_provider_def)
  have ign: "(truthy (GEMINI_API_KEY e) \<longrightarrow>
      select_provider (e\<lparr>ANTHROPIC_API_KEY := a, ANTHROPIC_BASE_URL := u, OPENAI_API_KEY := b\<rparr>) =
      select_provider e) \<and>
   (\<not> truthy (GEMINI_API_KEY e) \<and> truthy (ANTHROPIC_API_KEY e) \<longrightarrow>
      select_provider (e\<lparr>OPENAI_API_KEY := b\<rparr>) = select_provider e)"
    by (simp add: select_provider_def)
  from selected_spec [of e] one sel ign show ?thesis by simp
qed

theorem credential_precedence_witness:
  "selected anthropic_only =
     Some ([''anthropic''], ''anthropic/claude-sonnet-4-20250514'', [Some (JString ''sk-ant-1'')]) \<and>
   selected all_keys =
     Some ([''google-gemini''], ''google-gemini/gemini-2.0-flash'', [Some (JString ''g-1'')]) \<and>
   selected openai_only = Some ([''openai''], ''openai/gpt-4o'', [Some (JString ''sk-o-1'')]) \<and>
   select_provider (all_keys\<lparr>ANTHROPIC_API_KEY := None, ANTHROPIC_BASE_URL := Some ''http://proxy'',
                              OPENAI_API_KEY := None\<rparr>) = select_provider all_keys \<and>
   select_provider (anthropic_only\<lparr>OPENAI_API_KEY := Some ''sk-o-1''\<rparr>) = select_provider anthropic_only \<and>
   length (anthropic_provider ''sk-ant-1'' None) = 1"
proof -
  note g = credential_precedence [where e = all_keys and x = example_externals]
  note a = credential_precedence [where e = anthropic_only and x = example_externals]
  note o = credential_precedence [where e = openai_only and x = example_externals]
  have tg: "truthy (GEMINI_API_KEY all_keys)"
    by (simp add: all_keys_def no_keys_def)
  have ta: "\<not> truthy (GEMINI_API_KEY anthropic_only) \<and> truthy (ANTHROPIC_API_KEY anthropic_only)"
    by (simp add: anthropic_only_def no_keys_def)
  have to: "\<not> truthy (GEMINI_API_KEY openai_only) \<and> \<not> truthy (ANTHROPIC_API_KEY openai_only) \<and>
      truthy (OPENAI_API_KEY openai_only)"
    by (simp add: openai_only_def no_keys_def)
  have sa: "select_provider anthropic_only =
      Some (anthropic_provider ''sk-ant-1'' None, ''anthropic/claude-sonnet-4-20250514'')"
    by (simp add: select_provider_def anthropic_only_def no_keys_def)
  from a [THEN conjunct2, THEN conjunct2, THEN conjunct2, THEN conjunct1, rule_format, OF ta]
  have 1: "selected anthropic_only =
     Some ([''anthropic''], ''anthropic/claude-sonnet-4-20250514'', [Some (JString ''sk-ant-1'')])"
    by (simp add: anthropic_only_def no_keys_def)
  from g [THEN conjunct2, THEN conjunct2, THEN conjunct1, rule_format, OF tg]
  have 2: "selected all_keys =
     Some ([''google-gemini''], ''google-gemini/gemini-2.0-flash'', [Some (JString ''g-1'')])"
    by (simp add: all_keys_def no_keys_def)
  from o [THEN conjunct2, THEN conjunct2, THEN conjunct2, THEN conjunct2, THEN conjunct1,
      rule_format, OF to]
  have 3: "selected openai_only = Some ([''openai''], ''openai/gpt-4o'', [Some (JString ''sk-o-1'')])"
    by (simp add: openai_only_def no_keys_def)
  have 4: "select_provider (all_keys\<lparr>ANTHROPIC_API_KEY := None, ANTHROPIC_BASE_URL := Some ''http://proxy'',
                              OPENAI_API_KEY := None\<rparr>) = select_provider all_keys"
    by (rule g [THEN conjunct2, THEN conjunct2, THEN conjunct2, THEN conjunct2, THEN conjunct2,
          THEN conjunct1, rule_format, OF tg])
  have 5: "select_provider (anthropic_only\<lparr>OPENAI_API_KEY := Some ''sk-o-1''\<rparr>) =
      select_provider anthropic_only"
    by (rule a [THEN conjunct2, THEN conjunct2, THEN conjunct2, THEN conjunct2, THEN conjunct2,
          THEN conjunct2, rule_format, OF ta])
  from a [THEN conjunct2, THEN conjunct1, rule_format, OF sa]
  have 6: "length (anthropic_provider ''sk-ant-1'' None) = 1"
    by simp
  from 1 2 3 4 5 6 show ?thesis by simp
qed

section \<open>The config seeder\<close>

text \<open>
  Claim C7. For every environment with none of the three provider API keys present,
  \<open>preseedOpenClawConfig\<close> returns without calling the sandbox: the trace and the world are
  what they were, so no write command is issued and a config already there is untouched.
\<close>

theorem preseed_skipped_without_keys:
  assumes "\<not> truthy (GEMINI_API_KEY e)" and "\<not> truthy (ANTHROPIC_API_KEY e)"
    and "\<not> truthy (OPENAI_API_KEY e)"
  shows "preseedOpenClawConfig x sb e s = (Inr (), s) \<and>
         trace_of (preseedOpenClawConfig x sb e) w = []"
proof -
  from assms have "select_provider e = None"
    by (simp add: select_provider_None)
  then have "preseedOpenClawConfig x sb e = return_prog ()"
    by (simp add: preseedOpenClawConfig_def)
  then show ?thesis
    by (simp add: return_prog_def trace_of_def)
qed

theorem preseed_skipped_without_keys_witness:
  "preseedOpenClawConfig example_externals (scripted_sandbox [] [] (Inr crash_logs)) empty_key
     ([EnsureRcloneConfig, ListProcesses], ()) =
   (Inr (), ([EnsureRcloneConfig, ListProcesses], ())) \<and>
   trace_of (preseedOpenClawConfig example_externals (scripted_sandbox [] [] (Inr crash_logs)) empty_key) ()
     = []"
proof -
  have g: "\<not> truthy (GEMINI_API_KEY empty_key)" and a: "\<not> truthy (ANTHROPIC_API_KEY empty_key)"
    and o: "\<not> truthy (OPENAI_API_KEY empty_key)"
    by (simp_all add: empty_key_def no_keys_def)
  show ?thesis
    by (rule preseed_skipped_without_keys [OF g a o])
qed

text \<open>
  Claim C8. The config seeder never fails the supervision flow. Whatever the sandbox
  answers to the write (starting the write process, waiting for it, reading its logs),
  \<open>preseedOpenClawConfig\<close> returns normally; the fresh start that runs it always goes on
  to start the gateway's script; and every invocation of \<open>ensureMoltbotGateway\<close> issues
  that launch unless it stopped at a failing storage mount, before the seeder, or
  returned the reused process after its probe, without running the seeder.
\<close>

theorem preseed_never_fails:
  "fst (preseedOpenClawConfig x sb e s) = Inr () \<and>
   list_ex is_launch (trace_of (start_new_gateway x sb e) w) \<and>
   (list_ex is_launch (trace_of (ensureMoltbotGateway x sb e) w) \<or>
    (\<exists>err. result_of (ensureMoltbotGateway x sb e) w = Inl err \<and>
           trace_of (ensureMoltbotGateway x sb e) w = [EnsureRcloneConfig]) \<or>
    (\<exists>p. result_of (ensureMoltbotGateway x sb e) w = Inr p \<and>
         trace_of (ensureMoltbotGateway x sb e) w =
           [EnsureRcloneConfig, ListProcesses,
            WaitForPort p (MOLTBOT_PORT x) ''tcp'' (STARTUP_TIMEOUT_MS x)]))"
proof -
  have a: "fst (preseedOpenClawConfig x sb e s) = Inr ()"
    by (rule preseed_returns)
  have b: "list_ex is_launch (trace_of (start_new_gateway x sb e) w)"
    by (simp add: trace_of_def start_new_launches)
  have c: "list_ex is_launch (trace_of (ensureMoltbotGateway x sb e) w) \<or>
    (\<exists>err. result_of (ensureMoltbotGateway x sb e) w = Inl err \<and>
           trace_of (ensureMoltbotGateway x sb e) w = [EnsureRcloneConfig]) \<or>
    (\<exists>p. result_of (ensureMoltbotGateway x sb e) w = Inr p \<and>
         trace_of (ensureMoltbotGateway x sb e) w =
           [EnsureRcloneConfig, ListProcesses,
            WaitForPort p (MOLTBOT_PORT x) ''tcp'' (STARTUP_TIMEOUT_MS x)])"
    by (auto simp add: trace_of_def result_of_def ensureMoltbotGateway_def
        findExistingMoltbotProcess_def prog_defs start_new_launches
        split: prod.splits sum.splits option.splits)
  from a b c show ?thesis by simp
qed

theorem preseed_never_fails_witness:
  "fst (sb_startProcess (write_failing_sandbox [] [''proc_2''] (Inr crash_logs))
          (writeCmd (escape_quotes (render_json
             (build_config example_externals anthropic_only
                (anthropic_provider ''sk-ant-1'' None) ''anthropic/claude-sonnet-4-20250514''))))
          None ()) = Inl spawn_error \<and>
   fst (preseedOpenClawConfig example_externals
          (write_failing_sandbox [] [''proc_2''] (Inr crash_logs)) anthropic_only ([], ())) = Inr () \<and>
   list_ex is_launch (trace_of (start_new_gateway example_externals
          (write_failing_sandbox [] [''proc_2''] (Inr crash_logs)) anthropic_only) ()) \<and>
   result_of (ensureMoltbotGateway example_externals
          (write_failing_sandbox [] [''proc_2''] (Inr crash_logs)) anthropic_only) () =
     Inr new_gateway"
proof -
  let ?sb = "write_failing_sandbox [] [''proc_2''] (Inr crash_logs)"
  note th = preseed_never_fails [where x = example_externals and sb = ?sb and e = anthropic_only
      and s = "([], ())" and w = "()"]
  have 1: "fst (sb_startProcess ?sb
          (writeCmd (escape_quotes (render_json
             (build_config example_externals anthropic_only
                (anthropic_provider ''sk-ant-1'' None) ''anthropic/claude-sonnet-4-20250514''))))
          None ()) = Inl spawn_error"
    by (simp add: write_failing_sandbox_def writeCmd_not_launch)
  have 4: "result_of (ensureMoltbotGateway example_externals ?sb anthropic_only) () = Inr new_gateway"
    by (simp add: result_of_def gateway_defs preseedOpenClawConfig_def select_provider_def
        prog_defs example_defs Let_def writeCmd_not_launch launch_command_def)
  from th [THEN conjunct1] th [THEN conjunct2, THEN conjunct1] 1 4 show ?thesis
    by simp
qed

subsection \<open>The reader of JSON text inverts the rendering\<close>

lemma parse_string_quote:
  "parse_string (concat (map (\<lambda>c. if c = CHR 0x22 \<or> c = CHR 0x5C then [CHR 0x5C, c] else [c]) s) @
     CHR 0x22 # rest) = Some (s, rest)"
  by (induction s) auto

lemma parse_quote_string: "parse_string (tl (quote_string s) @ rest) = Some (s, rest)"
  using parse_string_quote [of s rest] by (simp add: quote_string_def)

lemma quote_string_Cons: "quote_string s = CHR 0x22 # tl (quote_string s)"
  by (simp add: quote_string_def)

lemma digit_char_digit: "d < 10 \<Longrightarrow> is_digit (digit_char d) \<and> digit_value (digit_char d) = d"
  by (simp add: is_digit_def digit_value_def digit_char_def)

lemma decimal_small: "n < 10 \<Longrightarrow> decimal n = [digit_char n]"
  by (subst decimal.simps) simp

lemma decimal_large: "\<not> n < 10 \<Longrightarrow> decimal n = decimal (n div 10) @ [digit_char (n mod 10)]"
  by (subst decimal.simps) simp

lemma decimal_digits: "list_all is_digit (decimal n) \<and> decimal n \<noteq> []"
proof (induction n rule: decimal.induct)
  case (1 n)
  show ?case
  proof (cases "n < 10")
    case True
    then show ?thesis by (simp add: decimal_small digit_char_digit)
  next
    case False
    with 1 have "list_all is_digit (decimal (n div 10))" by simp
    moreover have "is_digit (digit_char (n mod 10))" by (simp add: digit_char_digit)
    ultimately show ?thesis using False by (simp add: decimal_large)
  qed
qed

lemma decimal_value: "foldl (\<lambda>a c. 10 * a + digit_value c) 0 (decimal n) = n"
proof (induction n rule: decimal.induct)
  case (1 n)
  show ?case
  proof (cases "n < 10")
    case True
    then show ?thesis by (simp add: decimal_small digit_char_digit)
  next
    case False
    with 1 have "foldl (\<lambda>a c. 10 * a + digit_value c) 0 (decimal (n div 10)) = n div 10" by simp
    then show ?thesis using False by (simp add: decimal_large digit_char_digit)
  qed
qed

lemma parse_nat_decimal: "no_digit rest \<Longrightarrow> parse_nat (decimal n @ rest) = (n, rest)"
proof -
  assume nd: "no_digit rest"
  have all: "list_all is_digit (decimal n)" using decimal_digits by blast
  have tw: "takeWhile is_digit (decimal n @ rest) = decimal n"
    using all nd by (cases rest) (auto simp: no_digit_def list_all_iff takeWhile_append2 takeWhile_eq_all_conv)
  have dw: "dropWhile is_digit (decimal n @ rest) = rest"
    using all nd by (cases rest) (auto simp: no_digit_def list_all_iff dropWhile_append2 dropWhile_eq_Nil_conv)
  show ?thesis by (simp add: parse_nat_def tw dw decimal_value)
qed



lemma join_Cons: "xs \<noteq> [] \<Longrightarrow> join sep (x # xs) = x @ sep @ join sep xs"
  by (cases xs) simp_all

lemma digit_not_special:
  "is_digit c \<Longrightarrow> c \<noteq> CHR 0x22 \<and> c \<noteq> CHR ''['' \<and> c \<noteq> CHR ''{'' \<and> c \<noteq> CHR ''t'' \<and> c \<noteq> CHR ''f''"
  by (auto simp: is_digit_def)

lemma parse_value_number:
  assumes "no_digit rest"
  shows "parse_value (Suc k) (decimal n @ rest) = Some (JNumber n, rest)"
proof -
  from decimal_digits [of n] obtain c cs where d: "decimal n = c # cs" and c: "is_digit c"
    by (cases "decimal n") auto
  from parse_nat_decimal [OF assms, of n] d have p: "parse_nat (c # cs @ rest) = (n, rest)"
    by simp
  from digit_not_special [OF c] c p show ?thesis
    by (auto simp: d)
qed

lemma render_first:
  "\<exists>c cs. render_json j = c # cs \<and> c \<noteq> CHR '']'' \<and> c \<noteq> CHR ''}''"
proof (cases j)
  case (JNumber n)
  from decimal_digits [of n] obtain c cs where "decimal n = c # cs" and "is_digit c"
    by (cases "decimal n") auto
  then show ?thesis using JNumber by (auto simp: is_digit_def)
qed (simp_all add: quote_string_def)

lemma no_digit_sep [simp]:
  "no_digit (CHR '','' # r)" "no_digit (CHR '']'' # r)" "no_digit (CHR ''}'' # r)" "no_digit []"
  by (simp_all add: no_digit_def is_digit_def)

lemma parse_elements_render:
  assumes "vs \<noteq> []"
    and "\<And>v k rest. v \<in> set vs \<Longrightarrow> fuel_needed v \<le> k \<Longrightarrow> no_digit rest \<Longrightarrow>
           parse_value k (render_json v @ rest) = Some (v, rest)"
    and "sum_list (map Suc (map fuel_needed vs)) \<le> k"
  shows "parse_elements k (join '','' (map render_json vs) @ CHR '']'' # rest) = Some (vs, rest)"
  using assms
proof (induction vs arbitrary: k rule: list_nonempty_induct)
  case (single v)
  then obtain k' where k: "k = Suc k'" and f: "fuel_needed v \<le> k'"
    by (cases k) auto
  from single(1) [of v k' "CHR '']'' # rest"] f
  have "parse_value k' (render_json v @ CHR '']'' # rest) = Some (v, CHR '']'' # rest)"
    by simp
  then show ?case by (simp add: k)
next
  case (cons v vs)
  then obtain k' where k: "k = Suc k'" and f: "fuel_needed v \<le> k'"
    and g: "sum_list (map Suc (map fuel_needed vs)) \<le> k'"
    by (cases k) auto
  from cons(3) [of v k' "CHR '','' # join '','' (map render_json vs) @ CHR '']'' # rest"] f
  have h: "parse_value k' (render_json v @ CHR '','' # join '','' (map render_json vs) @ CHR '']'' # rest) =
      Some (v, CHR '','' # join '','' (map render_json vs) @ CHR '']'' # rest)"
    by simp
  have t: "parse_elements k' (join '','' (map render_json vs) @ CHR '']'' # rest) = Some (vs, rest)"
    by (rule cons(2)) (use cons(3) g in auto)
  from cons(1) have "join '','' (map render_json (v # vs)) =
      render_json v @ '','' @ join '','' (map render_json vs)"
    by (simp add: join_Cons)
  with h t show ?case by (simp add: k)
qed


lemma render_object:
  "render_json (JObject kvs) =
   CHR ''{'' # join '','' (map (\<lambda>kv. quote_string (fst kv) @ CHR '':'' # render_json (snd kv)) kvs) @ ''}''"
  by (simp add: comp_def case_prod_beta)

lemma parse_members_render:
  assumes "kvs \<noteq> []"
    and "\<And>kv k rest. kv \<in> set kvs \<Longrightarrow> fuel_needed (snd kv) \<le> k \<Longrightarrow> no_digit rest \<Longrightarrow>
           parse_value k (render_json (snd kv) @ rest) = Some (snd kv, rest)"
    and "sum_list (map (\<lambda>kv. Suc (fuel_needed (snd kv))) kvs) \<le> k"
  shows "parse_members k
           (join '','' (map (\<lambda>kv. quote_string (fst kv) @ CHR '':'' # render_json (snd kv)) kvs) @
            CHR ''}'' # rest) = Some (kvs, rest)"
  using assms
proof (induction kvs arbitrary: k rule: list_nonempty_induct)
  case (single kv)
  then obtain k' where k: "k = Suc k'" and f: "fuel_needed (snd kv) \<le> k'"
    by (cases k) auto
  from single(1) [of kv k' "CHR ''}'' # rest"] f
  have v: "parse_value k' (render_json (snd kv) @ CHR ''}'' # rest) = Some (snd kv, CHR ''}'' # rest)"
    by simp
  have q: "parse_string (tl (quote_string (fst kv)) @ CHR '':'' # render_json (snd kv) @ CHR ''}'' # rest) =
      Some (fst kv, CHR '':'' # render_json (snd kv) @ CHR ''}'' # rest)"
    by (rule parse_quote_string)
  show ?case
    by (subst quote_string_Cons) (simp add: k q v)
next
  case (cons kv kvs)
  let ?m = "\<lambda>kv. quote_string (fst kv) @ CHR '':'' # render_json (snd kv)"
  let ?tail = "join '','' (map ?m kvs) @ CHR ''}'' # rest"
  from cons obtain k' where k: "k = Suc k'" and f: "fuel_needed (snd kv) \<le> k'"
    and g: "sum_list (map (\<lambda>kv. Suc (fuel_needed (snd kv))) kvs) \<le> k'"
    by (cases k) auto
  from cons(3) [of kv k' "CHR '','' # ?tail"] f
  have v: "parse_value k' (render_json (snd kv) @ CHR '','' # ?tail) = Some (snd kv, CHR '','' # ?tail)"
    by simp
  have q: "parse_string (tl (quote_string (fst kv)) @ CHR '':'' # render_json (snd kv) @ CHR '','' # ?tail) =
      Some (fst kv, CHR '':'' # render_json (snd kv) @ CHR '','' # ?tail)"
    by (rule parse_quote_string)
  have t: "parse_members k' ?tail = Some (kvs, rest)"
    by (rule cons(2)) (use cons(3) g in auto)
  from cons(1) have j: "join '','' (map ?m (kv # kvs)) = ?m kv @ '','' @ join '','' (map ?m kvs)"
    by (simp add: join_Cons)
  show ?case
    unfolding j by (subst quote_string_Cons) (simp add: k q v t)
qed

lemma parse_value_render:
  "fuel_needed j \<le> k \<Longrightarrow> no_digit rest \<Longrightarrow> parse_value k (render_json j @ rest) = Some (j, rest)"
proof (induction j arbitrary: k rest)
  case (JString s)
  then obtain k' where k: "k = Suc k'" by (cases k) auto
  show ?case
    using parse_quote_string [of s rest]
    by (subst render_json.simps, subst quote_string_Cons) (simp add: k)
next
  case (JNumber n)
  then obtain k' where k: "k = Suc k'" by (cases k) auto
  from parse_value_number [OF JNumber(2)] show ?case by (simp add: k)
next
  case (JBool b)
  then obtain k' where k: "k = Suc k'" by (cases k) auto
  show ?case by (cases b) (simp_all add: k)
next
  case (JArray vs)
  then obtain k' where k: "k = Suc k'" and g: "sum_list (map Suc (map fuel_needed vs)) \<le> k'"
    by (cases k) auto
  show ?case
  proof (cases vs)
    case Nil
    then show ?thesis by (simp add: k)
  next
    case (Cons v vs')
    from render_first [of v] obtain c cs where r: "render_json v = c # cs" and c: "c \<noteq> CHR '']''"
      by blast
    have "join '','' (map render_json vs) = render_json v @ (if vs' = [] then [] else '','' @ join '','' (map render_json vs'))"
      using Cons by (simp add: join_Cons)
    then obtain tl' where j: "join '','' (map render_json vs) = c # tl'"
      using r by simp
    have ne: "vs \<noteq> []" using Cons by simp
    have e: "parse_elements k' (join '','' (map render_json vs) @ CHR '']'' # rest) = Some (vs, rest)"
      by (rule parse_elements_render [OF ne _ g]) (rule JArray(1))
    then have "parse_elements k' (c # tl' @ CHR '']'' # rest) = Some (vs, rest)"
      by (simp add: j)
    with c show ?thesis by (simp add: k j)
  qed
next
  case (JObject kvs)
  let ?m = "\<lambda>kv. quote_string (fst kv) @ CHR '':'' # render_json (snd kv)"
  from JObject obtain k' where k: "k = Suc k'"
    and g: "sum_list (map (\<lambda>kv. Suc (fuel_needed (snd kv))) kvs) \<le> k'"
    by (cases k) (auto simp: comp_def)
  show ?case
  proof (cases kvs)
    case Nil
    then show ?thesis unfolding render_object by (simp add: k)
  next
    case (Cons kv kvs')
    have "join '','' (map ?m kvs) = ?m kv @ (if kvs' = [] then [] else '','' @ join '','' (map ?m kvs'))"
      using Cons by (simp add: join_Cons)
    then obtain tl' where j: "join '','' (map ?m kvs) = CHR 0x22 # tl'"
      by (subst (asm) quote_string_Cons) simp
    have ne: "kvs \<noteq> []" using Cons by simp
    have ih: "parse_value k (render_json (snd kv) @ rest) = Some (snd kv, rest)"
      if "kv \<in> set kvs" "fuel_needed (snd kv) \<le> k" "no_digit rest" for kv k rest
      using JObject(1) [of kv "snd kv" k rest] that by (cases kv) auto
    have e: "parse_members k' (join '','' (map ?m kvs) @ CHR ''}'' # rest) = Some (kvs, rest)"
      by (rule parse_members_render [OF ne ih g])
    then have "parse_members k' (CHR 0x22 # tl' @ CHR ''}'' # rest) = Some (kvs, rest)"
      by (simp add: j)
    then show ?thesis unfolding render_object by (simp add: k j)
  qed
qed


lemma sum_fuel_join:
  assumes "\<And>v. v \<in> set xs \<Longrightarrow> f v \<le> length (r v)"
  shows "sum_list (map (\<lambda>v. Suc (f v)) xs) \<le> Suc (length (join '','' (map r xs)))"
  using assms
proof (induction xs)
  case Nil
  show ?case by simp
next
  case (Cons v xs)
  from Cons have h: "f v \<le> length (r v)"
    and ih: "sum_list (map (\<lambda>v. Suc (f v)) xs) \<le> Suc (length (join '','' (map r xs)))"
    by auto
  show ?case
  proof (cases xs)
    case Nil
    with h show ?thesis by simp
  next
    case (Cons u us)
    then have "join '','' (map r (v # xs)) = r v @ '','' @ join '','' (map r xs)"
      by simp
    with h ih show ?thesis by simp
  qed
qed

lemma fuel_le_length: "fuel_needed j \<le> length (render_json j)"
proof (induction j)
  case (JString s)
  show ?case by (simp add: quote_string_def)
next
  case (JNumber n)
  from decimal_digits [of n] show ?case by (cases "decimal n") auto
next
  case (JBool b)
  show ?case by simp
next
  case (JArray vs)
  from sum_fuel_join [of vs fuel_needed render_json] JArray
  have "sum_list (map (\<lambda>v. Suc (fuel_needed v)) vs) \<le> Suc (length (join '','' (map render_json vs)))"
    by simp
  then show ?case by (simp add: comp_def)
next
  case (JObject kvs)
  let ?m = "\<lambda>kv. quote_string (fst kv) @ CHR '':'' # render_json (snd kv)"
  have "fuel_needed (snd kv) \<le> length (?m kv)" if "kv \<in> set kvs" for kv
    using JObject [of kv "snd kv"] that by (cases kv) auto
  from sum_fuel_join [of kvs "\<lambda>kv. fuel_needed (snd kv)" ?m, OF this]
  have "sum_list (map (\<lambda>kv. Suc (fuel_needed (snd kv))) kvs) \<le> Suc (length (join '','' (map ?m kvs)))"
    by simp
  then show ?case unfolding render_object by (simp add: comp_def)
qed

lemma parse_json_render: "parse_json (render_json j) = Some j"
proof -
  have "fuel_needed j \<le> Suc (length (render_json j))"
    using fuel_le_length [of j] by simp
  from parse_value_render [OF this, of "[]"] show ?thesis
    by (simp add: parse_json_def)
qed


subsection \<open>The write command, read and run\<close>

lemma script_no_quote: "CHR 0x27 \<notin> set node_script"
  by (simp add: node_script_def)

lemma flush_Some: "flush (Some w) = (#) (Word w)"
  by (rule ext) simp

lemma sh_tokens_quoted_plain:
  "CHR 0x27 \<notin> set s \<Longrightarrow>
   sh_tokens True (Some w) (s @ CHR 0x27 # rest) = sh_tokens False (Some (w @ s)) rest"
  by (induction s arbitrary: w) auto

lemma sh_tokens_quoted:
  "sh_tokens True (Some w) (escape_quotes s @ CHR 0x27 # rest) = sh_tokens False (Some (w @ s)) rest"
  by (induction s arbitrary: w) (auto simp: escape_quotes_def)

lemma word_tokens: "sh_tokens False None (CHR 0x27 # escape_quotes s @ [CHR 0x27]) = Some [Word s]"
  using sh_tokens_quoted [of "[]" s "[]"] by simp

lemma writeCmd_tokens:
  "sh_tokens False None (writeCmd (escape_quotes s)) =
     Some [Word ''mkdir'', Word ''-p'', Word ''/root/.openclaw'', AndIf,
           Word ''node'', Word ''-e'', Word node_script, Word s]"
proof -
  have "sh_tokens False None (writeCmd (escape_quotes s)) =
      map_option (\<lambda>ts. Word ''mkdir'' # Word ''-p'' # Word ''/root/.openclaw'' # AndIf #
                        Word ''node'' # Word ''-e'' # ts)
        (sh_tokens True (Some [])
           (node_script @ CHR 0x27 # CHR '' '' # CHR 0x27 # escape_quotes s @ [CHR 0x27]))"
    by (simp add: writeCmd_def writeCmd_prefix_def sh_special_def option.map_comp comp_def)
  also have "sh_tokens True (Some [])
        (node_script @ CHR 0x27 # CHR '' '' # CHR 0x27 # escape_quotes s @ [CHR 0x27]) =
      sh_tokens False (Some node_script) (CHR '' '' # CHR 0x27 # escape_quotes s @ [CHR 0x27])"
    using sh_tokens_quoted_plain [OF script_no_quote, of "[]"] by simp
  also have "\<dots> =
      map_option ((#) (Word node_script)) (sh_tokens True (Some []) (escape_quotes s @ [CHR 0x27]))"
    by (simp add: flush_Some)
  also have "sh_tokens True (Some []) (escape_quotes s @ [CHR 0x27]) = Some [Word s]"
    using sh_tokens_quoted [of "[]" s "[]"] by simp
  finally show ?thesis by simp
qed

lemma writeCmd_and_list:
  "sh_and_list (writeCmd (escape_quotes s)) =
     Some [[''mkdir'', ''-p'', ''/root/.openclaw''], [''node'', ''-e'', node_script, s]]"
  by (simp add: sh_and_list_def writeCmd_tokens)

text \<open>Without the escaping, a payload that holds a single quote leaves the command unreadable.\<close>

lemma unescaped_payload_unreadable:
  "sh_and_list (writeCmd [CHR ''a'', CHR 0x27, CHR ''b'']) = None"
  by (simp add: sh_and_list_def writeCmd_def writeCmd_prefix_def sh_special_def node_script_def)

lemma dirname_config: "dirname ''/root/.openclaw/openclaw.json'' = ''/root/.openclaw''"
  by (simp add: dirname_def)

lemma run_write_command:
  assumes parses: "node_JSON_parse n s = Some v"
    and free: "files c ''/root/.openclaw'' = None"
  shows "run_and_list n [[''mkdir'', ''-p'', ''/root/.openclaw''], [''node'', ''-e'', node_script, s]] c =
     c\<lparr>dirs := insert ''/root/.openclaw'' (dirs c),
       files := (files c)(''/root/.openclaw/openclaw.json'' \<mapsto> node_JSON_stringify n v 2)\<rparr>"
  using assms
  by (simp add: run_simple_def mkdir_p_def run_node_script_def writeFileSync_def dirname_config)

lemma seeder_first_call:
  assumes selected: "select_provider e = Some (providerConfig, defaultModel)"
  shows "take 1 (trace_of (preseedOpenClawConfig x sb e) w) =
     [StartProcess
        (writeCmd (escape_quotes (JSON_stringify x (build_config x e providerConfig defaultModel))))
        None]"
  using selected
  by (simp add: trace_of_def preseedOpenClawConfig_def prog_defs Let_def
      split: prod.splits sum.splits)

lemma seeder_writes:
  assumes selected: "select_provider e = Some (providerConfig, defaultModel)"
    and parses: "node_JSON_parse n (JSON_stringify x (build_config x e providerConfig defaultModel)) =
                   Some (build_config x e providerConfig defaultModel)"
    and free: "files c ''/root/.openclaw'' = None"
  shows "snd (snd (preseedOpenClawConfig x (container_sandbox n wp lg) e (tr, c))) =
     c\<lparr>dirs := insert ''/root/.openclaw'' (dirs c),
       files := (files c)(''/root/.openclaw/openclaw.json'' \<mapsto>
                  node_JSON_stringify n (build_config x e providerConfig defaultModel) 2)\<rparr>"
proof -
  let ?cmd = "writeCmd (escape_quotes (JSON_stringify x (build_config x e providerConfig defaultModel)))"
  have st: "sb_startProcess (container_sandbox n wp lg) ?cmd None c =
      (Inr \<lparr>proc_id = ''proc_w'', command = ?cmd, status = ''running''\<rparr>,
       c\<lparr>dirs := insert ''/root/.openclaw'' (dirs c),
         files := (files c)(''/root/.openclaw/openclaw.json'' \<mapsto>
                  node_JSON_stringify n (build_config x e providerConfig defaultModel) 2)\<rparr>)"
    by (simp add: container_sandbox_def writeCmd_and_list run_write_command [OF parses free]
        del: run_and_list.simps)
  have others: "sb_waitForProcess (container_sandbox n wp lg) = (\<lambda>p t c. (wp, c))"
    "sb_getLogs (container_sandbox n wp lg) = (\<lambda>p c. (lg, c))"
    by (simp_all add: container_sandbox_def)
  show ?thesis
    using selected st others
    by (simp add: preseedOpenClawConfig_def prog_defs Let_def split: sum.splits)
qed

text \<open>
  Claim C10. Escaping round trip. For every serialized configuration, quote characters
  included, the escaped text between single quotes is read back by the shell's quoting
  rules as one word, exactly the serialized configuration, and the whole write command
  is read as \<^verbatim>\<open>mkdir -p /root/.openclaw\<close> and then \<^verbatim>\<open>node -e\<close> with the script and that word, so
  the script finds the serialized configuration in \<^verbatim>\<open>process.argv[1]\<close>. Where a provider
  key is present, the first call of \<open>preseedOpenClawConfig\<close> starts this command on the
  serialization of the configuration it built. Run in a container where
  \<^verbatim>\<open>/root/.openclaw\<close> is not a file, and with a \<^verbatim>\<open>JSON.parse\<close> that reads the serialization
  back as the configuration, the seeder leaves in \<^verbatim>\<open>/root/.openclaw/openclaw.json\<close> the
  \<^verbatim>\<open>JSON.stringify\<close>, indented by two, of that same configuration, whatever
  \<^verbatim>\<open>waitForProcess\<close> and \<^verbatim>\<open>getLogs\<close> answer.
\<close>

theorem escaping_round_trip:
  "sh_and_list (CHR 0x27 # escape_quotes configJson @ [CHR 0x27]) = Some [[configJson]] \<and>
   sh_and_list (writeCmd (escape_quotes configJson)) =
     Some [[''mkdir'', ''-p'', ''/root/.openclaw''], [''node'', ''-e'', node_script, configJson]] \<and>
   (select_provider e = Some (providerConfig, defaultModel) \<longrightarrow>
      take 1 (trace_of (preseedOpenClawConfig x sb e) w) =
        [StartProcess
           (writeCmd (escape_quotes (JSON_stringify x (build_config x e providerConfig defaultModel))))
           None]) \<and>
   (select_provider e = Some (providerConfig, defaultModel) \<and>
    node_JSON_parse n (JSON_stringify x (build_config x e providerConfig defaultModel)) =
      Some (build_config x e providerConfig defaultModel) \<and>
    files c ''/root/.openclaw'' = None \<longrightarrow>
      files (snd (snd (preseedOpenClawConfig x (container_sandbox n wp lg) e (tr, c))))
        ''/root/.openclaw/openclaw.json'' =
      Some (node_JSON_stringify n (build_config x e providerConfig defaultModel) 2))"
proof -
  have word: "sh_and_list (CHR 0x27 # escape_quotes configJson @ [CHR 0x27]) = Some [[configJson]]"
    by (simp add: sh_and_list_def word_tokens del: sh_tokens.simps)
  have written: "files (snd (snd (preseedOpenClawConfig x (container_sandbox n wp lg) e (tr, c))))
        ''/root/.openclaw/openclaw.json'' =
      Some (node_JSON_stringify n (build_config x e providerConfig defaultModel) 2)"
    if "select_provider e = Some (providerConfig, defaultModel)"
      and "node_JSON_parse n (JSON_stringify x (build_config x e providerConfig defaultModel)) =
        Some (build_config x e providerConfig defaultModel)"
      and "files c ''/root/.openclaw'' = None"
    using seeder_writes [OF that] by simp
  from word writeCmd_and_list [of configJson] seeder_first_call [of e providerConfig defaultModel x sb w]
    written
  show ?thesis by blast
qed

theorem escaping_round_trip_witness:
  "sh_and_list (CHR 0x27 # escape_quotes quoted_json @ [CHR 0x27]) = Some [[quoted_json]] \<and>
   sh_and_list (writeCmd (escape_quotes quoted_json)) =
     Some [[''mkdir'', ''-p'', ''/root/.openclaw''], [''node'', ''-e'', node_script, quoted_json]] \<and>
   select_provider quote_key =
     Some (openai_provider [CHR ''s'', CHR ''k'', CHR 0x27, CHR 0x22, CHR 0x5C, CHR ''1''], ''openai/gpt-4o'') \<and>
   take 1 (trace_of (preseedOpenClawConfig example_externals
       (scripted_sandbox [] [] (Inr crash_logs)) quote_key) ()) =
     [StartProcess
        (writeCmd (escape_quotes (render_json (build_config example_externals quote_key
           (openai_provider [CHR ''s'', CHR ''k'', CHR 0x27, CHR 0x22, CHR 0x5C, CHR ''1''])
           ''openai/gpt-4o''))))
        None] \<and>
   files (snd (snd (preseedOpenClawConfig example_externals
       (container_sandbox example_node (Inl spawn_error) (Inl logs_error)) quote_key
       ([], empty_container)))) ''/root/.openclaw/openclaw.json'' =
     Some (render_indented (build_config example_externals quote_key
        (openai_provider [CHR ''s'', CHR ''k'', CHR 0x27, CHR 0x22, CHR 0x5C, CHR ''1''])
        ''openai/gpt-4o'') 2 0)"
proof -
  let ?pc = "openai_provider [CHR ''s'', CHR ''k'', CHR 0x27, CHR 0x22, CHR 0x5C, CHR ''1'']"
  let ?cfg = "build_config example_externals quote_key ?pc ''openai/gpt-4o''"
  note th = escaping_round_trip [where configJson = quoted_json and e = quote_key
      and providerConfig = ?pc and defaultModel = "''openai/gpt-4o''" and x = example_externals
      and sb = "scripted_sandbox [] [] (Inr crash_logs)" and w = "()" and n = example_node
      and c = empty_container and wp = "Inl spawn_error" and lg = "Inl logs_error" and tr = "[]"]
  have selected: "select_provider quote_key = Some (?pc, ''openai/gpt-4o'')"
    by (simp add: select_provider_def quote_key_def no_keys_def)
  have str: "JSON_stringify example_externals = render_json"
    by (simp add: example_externals_def)
  have parses: "node_JSON_parse example_node (JSON_stringify example_externals ?cfg) = Some ?cfg"
    by (simp add: example_node_def str parse_json_render)
  have free: "files empty_container ''/root/.openclaw'' = None"
    by (simp add: empty_container_def)
  have ind: "node_JSON_stringify example_node ?cfg 2 = render_indented ?cfg 2 0"
    by (simp add: example_node_def)
  from th [THEN conjunct2, THEN conjunct2, THEN conjunct1, rule_format, OF selected]
  have first: "take 1 (trace_of (preseedOpenClawConfig example_externals
       (scripted_sandbox [] [] (Inr crash_logs)) quote_key) ()) =
     [StartProcess (writeCmd (escape_quotes (render_json ?cfg))) None]"
    by (simp only: str)
  from th [THEN conjunct2, THEN conjunct2, THEN conjunct2, rule_format,
      OF conjI [OF selected conjI [OF parses free]]]
  have written: "files (snd (snd (preseedOpenClawConfig example_externals
       (container_sandbox example_node (Inl spawn_error) (Inl logs_error)) quote_key
       ([], empty_container)))) ''/root/.openclaw/openclaw.json'' = Some (render_indented ?cfg 2 0)"
    by (simp only: ind)
  from th [THEN conjunct1] th [THEN conjunct2, THEN conjunct1] selected first written
  show ?thesis by (intro conjI)
qed

section \<open>The gateway supervisor\<close>

text \<open>
  Claim C4. Reuse path: where the storage helper returns, an existing live candidate is
  found and its readiness probe succeeds, \<open>ensureMoltbotGateway\<close> returns that same handle
  after exactly three calls (storage helper, process listing, the probe): it issues no
  kill and starts no process, so neither a launch nor a config write, and the world is
  left as the probe left it.
\<close>

theorem reuse_path_frame:
  assumes rclone: "sb_ensureRcloneConfig sb e w = (Inr b, w1)"
    and listed: "sb_listProcesses sb w1 = (Inr ps, w2)"
    and found: "scan_processes ps = Some existing"
    and ready: "sb_waitForPort sb existing (MOLTBOT_PORT x) ''tcp'' (STARTUP_TIMEOUT_MS x) w2 = (Inr (), w3)"
  shows "result_of (ensureMoltbotGateway x sb e) w = Inr existing \<and>
         trace_of (ensureMoltbotGateway x sb e) w =
           [EnsureRcloneConfig, ListProcesses,
            WaitForPort existing (MOLTBOT_PORT x) ''tcp'' (STARTUP_TIMEOUT_MS x)] \<and>
         filter is_kill (trace_of (ensureMoltbotGateway x sb e) w) = [] \<and>
         filter is_startProcess (trace_of (ensureMoltbotGateway x sb e) w) = [] \<and>
         snd (snd (ensureMoltbotGateway x sb e ([], w))) = w3"
  using reuse_returns [OF assms] by (simp add: result_of_def trace_of_def)

theorem reuse_path_frame_witness:
  "result_of (ensureMoltbotGateway example_externals
       (scripted_sandbox [old_gateway] [''proc_1''] (Inl logs_error)) all_keys) () = Inr old_gateway \<and>
   filter is_kill (trace_of (ensureMoltbotGateway example_externals
       (scripted_sandbox [old_gateway] [''proc_1''] (Inl logs_error)) all_keys) ()) = [] \<and>
   filter is_startProcess (trace_of (ensureMoltbotGateway example_externals
       (scripted_sandbox [old_gateway] [''proc_1''] (Inl logs_error)) all_keys) ()) = []"
proof -
  let ?sb = "scripted_sandbox [old_gateway] [''proc_1''] (Inl logs_error)"
  have rclone: "sb_ensureRcloneConfig ?sb all_keys () = (Inr True, ())"
    and listed: "sb_listProcesses ?sb () = (Inr [old_gateway], ())"
    by (simp_all add: scripted_sandbox_def)
  have found: "scan_processes [old_gateway] = Some old_gateway"
    by (simp add: old_gateway_def)
  have ready: "sb_waitForPort ?sb old_gateway (MOLTBOT_PORT example_externals) ''tcp''
      (STARTUP_TIMEOUT_MS example_externals) () = (Inr (), ())"
    by (simp add: scripted_sandbox_def old_gateway_def)
  from reuse_path_frame [OF rclone listed found ready] show ?thesis
    by simp
qed

text \<open>
  Claim C9. Full-timeout reuse probing: where an existing live candidate is found, the
  third call of \<open>ensureMoltbotGateway\<close> is the readiness probe on that process, on the
  gateway port with the full \<open>STARTUP_TIMEOUT_MS\<close>; and every readiness probe of the
  invocation, the one on a freshly launched process included, carries that same timeout.
\<close>

theorem reuse_probe_full_timeout:
  assumes rclone: "sb_ensureRcloneConfig sb e w = (Inr b, w1)"
    and listed: "sb_listProcesses sb w1 = (Inr ps, w2)"
    and found: "scan_processes ps = Some existing"
  shows "take 3 (trace_of (ensureMoltbotGateway x sb e) w) =
           [EnsureRcloneConfig, ListProcesses,
            WaitForPort existing (MOLTBOT_PORT x) ''tcp'' (STARTUP_TIMEOUT_MS x)] \<and>
         (\<forall>p port mode t. WaitForPort p port mode t \<in> set (trace_of (ensureMoltbotGateway x sb e) w) \<longrightarrow>
            t = STARTUP_TIMEOUT_MS x \<and> port = MOLTBOT_PORT x \<and> mode = ''tcp'')"
proof -
  let ?probe = "WaitForPort existing (MOLTBOT_PORT x) ''tcp'' (STARTUP_TIMEOUT_MS x)"
  obtain r w3 where probe:
    "sb_waitForPort sb existing (MOLTBOT_PORT x) ''tcp'' (STARTUP_TIMEOUT_MS x) w2 = (r, w3)"
    by (cases "sb_waitForPort sb existing (MOLTBOT_PORT x) ''tcp'' (STARTUP_TIMEOUT_MS x) w2")
  have first: "take 3 (trace_of (ensureMoltbotGateway x sb e) w) =
      [EnsureRcloneConfig, ListProcesses, ?probe]"
  proof (cases r)
    case (Inr u)
    with probe have
      "sb_waitForPort sb existing (MOLTBOT_PORT x) ''tcp'' (STARTUP_TIMEOUT_MS x) w2 = (Inr (), w3)"
      by simp
    from reuse_returns [OF rclone listed found this] show ?thesis
      by (simp add: trace_of_def)
  next
    case (Inl err)
    obtain k w4 where killed: "sb_kill sb existing w3 = (k, w4)"
      by (cases "sb_kill sb existing w3")
    from probe Inl have
      "sb_waitForPort sb existing (MOLTBOT_PORT x) ''tcp'' (STARTUP_TIMEOUT_MS x) w2 = (Inl err, w3)"
      by simp
    from restart_enters_fresh_start [OF rclone listed found this killed]
    have "prefix [EnsureRcloneConfig, ListProcesses, ?probe, Kill existing]
        (trace_of (ensureMoltbotGateway x sb e) w)"
      by (simp add: trace_of_def start_new_extends)
    then obtain rest where "trace_of (ensureMoltbotGateway x sb e) w =
        [EnsureRcloneConfig, ListProcesses, ?probe, Kill existing] @ rest"
      by (auto simp: prefix_def)
    then show ?thesis by simp
  qed
  have "list_all (full_probe x) (trace_of (ensureMoltbotGateway x sb e) w)"
    by (rule all_probes_full)
  then have every:
    "\<forall>p port mode t. WaitForPort p port mode t \<in> set (trace_of (ensureMoltbotGateway x sb e) w) \<longrightarrow>
       t = STARTUP_TIMEOUT_MS x \<and> port = MOLTBOT_PORT x \<and> mode = ''tcp''"
    by (auto simp: list_all_iff)
  from first every show ?thesis by simp
qed

theorem reuse_probe_full_timeout_witness:
  "take 3 (trace_of (ensureMoltbotGateway example_externals
       (scripted_sandbox [old_gateway] [''proc_2''] (Inr crash_logs)) anthropic_only) ()) =
     [EnsureRcloneConfig, ListProcesses, WaitForPort old_gateway 18789 ''tcp'' 180000] \<and>
   WaitForPort new_gateway 18789 ''tcp'' 180000 \<in>
     set (trace_of (ensureMoltbotGateway example_externals
       (scripted_sandbox [old_gateway] [''proc_2''] (Inr crash_logs)) anthropic_only) ()) \<and>
   STARTUP_TIMEOUT_MS example_externals = 180000"
proof -
  let ?sb = "scripted_sandbox [old_gateway] [''proc_2''] (Inr crash_logs)"
  let ?tr = "trace_of (ensureMoltbotGateway example_externals ?sb anthropic_only) ()"
  have rclone: "sb_ensureRcloneConfig ?sb anthropic_only () = (Inr True, ())"
    and listed: "sb_listProcesses ?sb () = (Inr [old_gateway], ())"
    by (simp_all add: scripted_sandbox_def)
  have found: "scan_processes [old_gateway] = Some old_gateway"
    by (simp add: old_gateway_def)
  note th = reuse_probe_full_timeout [OF rclone listed found, where x = example_externals]
  have 1: "take 3 ?tr = [EnsureRcloneConfig, ListProcesses, WaitForPort old_gateway 18789 ''tcp'' 180000]"
    using th [THEN conjunct1] by (simp add: example_externals_def)
  have 2: "WaitForPort new_gateway 18789 ''tcp'' 180000 \<in> set ?tr"
    by (simp add: trace_of_def gateway_defs preseedOpenClawConfig_def select_provider_def
        prog_defs example_defs Let_def launch_command_def)
  from th [THEN conjunct2, rule_format, OF 2] have 3: "STARTUP_TIMEOUT_MS example_externals = 180000"
    by simp
  from 1 2 3 show ?thesis by simp
qed

text \<open>
  Claim C1 says that after a fresh start whose readiness probe times out, the error
  raised carries the captured standard-error output whenever \<^verbatim>\<open>getLogs\<close> succeeds. The code
  builds that error and throws it inside the \<^verbatim>\<open>try\<close> block of lines 213 to 223, whose own
  \<^verbatim>\<open>catch\<close> discards it and rethrows the probe's error (\<open>probe_timeout_rethrows_original\<close>).
  Here no process is listed, the launch succeeds, the probe times out and \<^verbatim>\<open>getLogs\<close>
  returns the standard error \<^verbatim>\<open>config invalid\<close>: the supervisor raises the bare timeout
  error, whose message holds nothing of that output.
\<close>

theorem fresh_start_timeout_loses_stderr:
  "result_of (ensureMoltbotGateway example_externals
       (scripted_sandbox [] [] (Inr crash_logs)) no_keys) () = Inl timeout_error \<and>
   trace_of (ensureMoltbotGateway example_externals
       (scripted_sandbox [] [] (Inr crash_logs)) no_keys) () =
     [EnsureRcloneConfig, ListProcesses, StartProcess launch_command None,
      WaitForPort new_gateway 18789 ''tcp'' 180000, GetLogs new_gateway] \<and>
   sb_getLogs (scripted_sandbox [] [] (Inr crash_logs)) new_gateway () = (Inr crash_logs, ()) \<and>
   stderr crash_logs = ''config invalid'' \<and>
   \<not> includes_str (message timeout_error) (stderr crash_logs) \<and>
   timeout_error \<noteq>
     Error (''OpenClaw gateway failed to start. Stderr: '' @ stderr crash_logs) (Some timeout_error)"
  by (simp add: result_of_def trace_of_def gateway_defs preseedOpenClawConfig_def
      select_provider_def prog_defs example_defs launch_command_def)

text \<open>
  Claim C2 says that once the probe of a fresh start has succeeded, a failure of
  \<^verbatim>\<open>getLogs\<close> does not fail the supervisor. The call of line 208 stands inside the \<^verbatim>\<open>try\<close>
  block of the probe, so its failure reaches the \<^verbatim>\<open>catch\<close> of line 211 and is thrown
  (\<open>getLogs_failure_after_ready_is_thrown\<close>). Here no process is listed, the launch
  succeeds, the port of the new process opens and \<^verbatim>\<open>getLogs\<close> fails: the supervisor asks
  for the logs twice and raises the \<^verbatim>\<open>getLogs\<close> error instead of returning the new handle.
\<close>

theorem ready_gateway_fails_on_getLogs:
  "result_of (ensureMoltbotGateway example_externals
       (scripted_sandbox [] [''proc_2''] (Inl logs_error)) no_keys) () = Inl logs_error \<and>
   trace_of (ensureMoltbotGateway example_externals
       (scripted_sandbox [] [''proc_2''] (Inl logs_error)) no_keys) () =
     [EnsureRcloneConfig, ListProcesses, StartProcess launch_command None,
      WaitForPort new_gateway 18789 ''tcp'' 180000, GetLogs new_gateway, GetLogs new_gateway] \<and>
   sb_waitForPort (scripted_sandbox [] [''proc_2''] (Inl logs_error)) new_gateway 18789 ''tcp'' 180000 ()
     = (Inr (), ()) \<and>
   result_of (ensureMoltbotGateway example_externals
       (scripted_sandbox [] [''proc_2''] (Inl logs_error)) no_keys) () \<noteq> Inr new_gateway"
  by (simp add: result_of_def trace_of_def gateway_defs preseedOpenClawConfig_def
      select_provider_def prog_defs example_defs launch_command_def)

text \<open>
  Claim C3 says that on the restart path the supervisor kills the old process once, seeds
  the config once, launches once and, if the launch becomes ready, returns the new
  handle. Here the old gateway is listed and its probe times out, the Anthropic key is
  present, the new process becomes ready and \<^verbatim>\<open>getLogs\<close> fails: there is one kill, of the
  old process, one config write and one launch, and the new process is ready, yet the
  supervisor raises the \<^verbatim>\<open>getLogs\<close> error instead of returning the new handle:
  the call of line 208 stands inside the \<^verbatim>\<open>try\<close> block of the probe.
\<close>

theorem restart_ready_gateway_fails_on_getLogs:
  "result_of (ensureMoltbotGateway example_externals
       (scripted_sandbox [old_gateway] [''proc_2''] (Inl logs_error)) anthropic_only) ()
     = Inl logs_error \<and>
   filter is_kill (trace_of (ensureMoltbotGateway example_externals
       (scripted_sandbox [old_gateway] [''proc_2''] (Inl logs_error)) anthropic_only) ())
     = [Kill old_gateway] \<and>
   length (filter is_config_write (trace_of (ensureMoltbotGateway example_externals
       (scripted_sandbox [old_gateway] [''proc_2''] (Inl logs_error)) anthropic_only) ())) = 1 \<and>
   filter is_launch (trace_of (ensureMoltbotGateway example_externals
       (scripted_sandbox [old_gateway] [''proc_2''] (Inl logs_error)) anthropic_only) ())
     = [StartProcess launch_command None] \<and>
   sb_waitForPort (scripted_sandbox [old_gateway] [''proc_2''] (Inl logs_error)) new_gateway 18789 ''tcp'' 180000 ()
     = (Inr (), ()) \<and>
   sb_waitForPort (scripted_sandbox [old_gateway] [''proc_2''] (Inl logs_error)) old_gateway 18789 ''tcp'' 180000 ()
     = (Inl timeout_error, ())"
  by (simp add: result_of_def trace_of_def gateway_defs preseedOpenClawConfig_def
      select_provider_def prog_defs example_defs Let_def writeCmd_not_launch writeCmd_is_write
      launch_not_write)

end
